theory Spec2Isabelle
  imports Complex_Main
begin

section \<open>NAFF: numerical analysis of fundamental frequencies (gary/dynamics/naff.py)\<close>

text \<open>
  The embedding follows \<^verbatim>\<open>src/gary/dynamics/naff.py\<close>. numpy arrays of floats are lists
  of \<^typ>\<open>real\<close>, arrays of complex numbers are lists of \<^typ>\<open>complex\<close>; arithmetic is
  exact (no rounding, no NaN, no Inf, no single-precision storage). Element-wise array
  operations are \<^const>\<open>map\<close> and \<open>map2\<close>; they agree with numpy on arrays of equal
  length, which is what the docstrings of the source require ("aligned with the times
  specified when constructing this object").
\<close>

subsection \<open>Errors\<close>

text \<open>
  The exceptions the source can raise, as values. \<open>ValueError_minimization imode smode\<close> is
  the \<^verbatim>\<open>ValueError\<close> of \<^verbatim>\<open>NAFF.frequency\<close> (its message is formatted from the
  solver's \<^verbatim>\<open>imode\<close> and \<^verbatim>\<open>smode\<close>), \<open>ValueError_xyz\<close> the one of
  \<^verbatim>\<open>find_fundamental_frequencies\<close> ("Don't have x,y,z frequencies."),
  \<open>ValueError_empty\<close> is numpy's \<^verbatim>\<open>ValueError\<close> for a concatenation of no array,
  \<open>ValueError_mgrid\<close> the one for a grid of negative size, \<open>ValueError_broadcast\<close> the one
  for an assignment between arrays of different shapes.
\<close>

datatype error =
    IndexError
  | UnboundLocalError
  | ValueError_minimization int string
  | ValueError_xyz
  | ValueError_empty
  | ValueError_mgrid
  | ValueError_broadcast

subsection \<open>The Hanning window and the time grid\<close>

definition hanning :: "real \<Rightarrow> real" where
  "hanning x = 1 + cos x"

text \<open>
  The object state of class \<^verbatim>\<open>NAFF\<close>. The fields are \<^verbatim>\<open>self.t\<close>, \<^verbatim>\<open>self.ts\<close>,
  \<^verbatim>\<open>self.T\<close>, \<^verbatim>\<open>self.tz\<close> and \<^verbatim>\<open>self.chi\<close>; they carry the prefix \<open>naff_\<close>
  because a record field is a global constant.
\<close>

record NAFF =
  naff_t :: "real list"
  naff_ts :: real
  naff_T :: real
  naff_tz :: "real list"
  naff_chi :: "real list"

text \<open>
  \<^verbatim>\<open>NAFF.__init__(self, t)\<close>. \<^verbatim>\<open>t[-1]\<close> and \<^verbatim>\<open>t[0]\<close> raise \<^verbatim>\<open>IndexError\<close> on an
  empty array; nothing else is checked. (With a single sample \<^verbatim>\<open>T\<close> is zero and numpy
  divides by it with a warning; in HOL the quotient is zero.)
\<close>

definition NAFF_init :: "real list \<Rightarrow> error + NAFF" where
  "NAFF_init t =
     (if t = [] then Inl IndexError
      else
        let ts = 0.5 * (last t + hd t);
            T = 0.5 * (last t - hd t);
            tz = map (\<lambda>x. x - ts) t
        in Inr \<lparr>naff_t = t, naff_ts = ts, naff_T = T, naff_tz = tz,
                 naff_chi = map (\<lambda>x. hanning (x * pi / T)) tz\<rparr>)"

subsection \<open>The quadrature rule\<close>

text \<open>
  Modelled from the spec: \<^verbatim>\<open>scipy.integrate.simps\<close> is imported by the source and is not
  under \<^verbatim>\<open>src/\<close>. The spec names it "composite Simpson's rule or equivalent"; the
  definitions below are the composite Simpson rule for samples \<open>y\<close> at abscissae \<open>x\<close> with
  possibly unequal spacing (\<open>basic_simps\<close>, one parabola per pair of intervals), and for
  an even number of samples the library's default policy \<^verbatim>\<open>even='avg'\<close>: the mean of
  Simpson on the first \<open>N-1\<close> samples plus a trapezoid on the last interval, and Simpson on
  the last \<open>N-1\<close> samples plus a trapezoid on the first interval. The library raises on
  an array with no sample; the integral of no sample is \<open>0\<close> here (the grid of a
  constructed \<^typ>\<open>NAFF\<close> object is never empty).
\<close>

fun basic_simps :: "real list \<Rightarrow> real list \<Rightarrow> real" where
  "basic_simps (y0 # y1 # y2 # ys) (x0 # x1 # x2 # xs) =
     (let h0 = x1 - x0; h1 = x2 - x1; hsum = h0 + h1; hprod = h0 * h1; h0divh1 = h0 / h1
      in hsum / 6 * (y0 * (2 - 1 / h0divh1) + y1 * hsum * hsum / hprod + y2 * (2 - h0divh1)))
     + basic_simps (y2 # ys) (x2 # xs)"
| "basic_simps ys xs = 0"

definition simps :: "real list \<Rightarrow> real list \<Rightarrow> real" where
  "simps y x =
     (if y = [] then 0
      else if even (length y) then
        (let n = length y;
             val_first = 0.5 * (x ! (n - 1) - x ! (n - 2)) * (y ! (n - 1) + y ! (n - 2));
             res_first = basic_simps (butlast y) (butlast x);
             val_last = 0.5 * (x ! 1 - x ! 0) * (y ! 1 + y ! 0);
             res_last = basic_simps (tl y) (tl x)
         in (res_first + res_last) / 2 + (val_first + val_last) / 2)
      else basic_simps y x)"

subsection \<open>The weighted inner product\<close>

text \<open>
  \<^verbatim>\<open>NAFF.hanning_product(self, u1, u2)\<close>: the integrand \<^verbatim>\<open>u1 * np.conj(u2) * self.chi\<close>,
  its real and imaginary parts integrated separately over \<^verbatim>\<open>self.tz\<close> and divided by
  \<^verbatim>\<open>2 T\<close>.
\<close>

definition hanning_integrand :: "NAFF \<Rightarrow> complex list \<Rightarrow> complex list \<Rightarrow> complex list" where
  "hanning_integrand naff u1 u2 =
     map2 (\<lambda>z c. z * complex_of_real c) (map2 (\<lambda>a b. a * cnj b) u1 u2) (naff_chi naff)"

definition hanning_product :: "NAFF \<Rightarrow> complex list \<Rightarrow> complex list \<Rightarrow> complex" where
  "hanning_product naff u1 u2 =
     (let integ = hanning_integrand naff u1 u2;
          integ_r = map Re integ;
          integ_i = map Im integ;
          real_part = simps integ_r (naff_tz naff) / (2 * naff_T naff);
          imag_part = simps integ_i (naff_tz naff) / (2 * naff_T naff)
      in complex_of_real real_part + complex_of_real imag_part * \<i>)"

subsection \<open>External primitives\<close>

text \<open>
  The fast Fourier transform (\<^verbatim>\<open>numpy.fft.fft\<close> or \<^verbatim>\<open>pyfftw\<close>) and the bounded
  minimizer (\<^verbatim>\<open>scipy.optimize.fmin_slsqp\<close>) are libraries the source calls; they are
  parameters of the model. \<open>fft\<close> returns an array of the length of its argument.
  \<open>fmin_slsqp func x0 iter\<close> stands for the call
  \<^verbatim>\<open>so.fmin_slsqp(func, x0=x0, acc=1E-9, bounds=[(0,1)], disp=0, iter=iter, full_output=True)\<close>;
  its result is the tuple \<^verbatim>\<open>(x, fx, its, imode, smode)\<close>.
\<close>

record slsqp_result =
  slsqp_x :: real
  slsqp_fx :: real
  slsqp_its :: nat
  slsqp_imode :: int
  slsqp_smode :: string

record primitives =
  fft :: "complex list \<Rightarrow> complex list"
  fmin_slsqp :: "(real \<Rightarrow> real) \<Rightarrow> real \<Rightarrow> nat \<Rightarrow> slsqp_result"

text \<open>
  \<^verbatim>\<open>numpy.fft.fftfreq(n, d)\<close>: the bins \<open>0, 1, \<dots>, (n-1) div 2, -(n div 2), \<dots>, -1\<close>
  divided by \<open>n d\<close>.
\<close>

definition fftfreq :: "nat \<Rightarrow> real \<Rightarrow> real list" where
  "fftfreq n d =
     map (\<lambda>k. real_of_int k / (real n * d)) ([0..int ((n - 1) div 2)] @ [- int (n div 2)..-1])"

text \<open>
  \<^verbatim>\<open>argmax\<close> and \<^verbatim>\<open>argmin\<close> of numpy: the index of the first occurrence of the
  largest (smallest) entry. \<^verbatim>\<open>np.linspace(0, 1, num)\<close> is \<open>linspace01 num\<close>.
\<close>

definition argmax :: "real list \<Rightarrow> nat" where
  "argmax xs = length (takeWhile (\<lambda>v. v \<noteq> Max (set xs)) xs)"

definition argmin :: "real list \<Rightarrow> nat" where
  "argmin xs = length (takeWhile (\<lambda>v. v \<noteq> Min (set xs)) xs)"

definition linspace01 :: "nat \<Rightarrow> real list" where
  "linspace01 num = map (\<lambda>i. real i / (real num - 1)) [0..<num]"

subsection \<open>The most significant frequency\<close>

text \<open>
  \<^verbatim>\<open>NAFF.frequency(self, f)\<close>. The first part is the peak of the Fourier transform:
  \<^verbatim>\<open>xf\<close> and \<^verbatim>\<open>yf\<close> are the rescaled real and imaginary parts with the alternating
  sign, \<^verbatim>\<open>wmax\<close> the index of the largest of their absolute values.
\<close>

definition fft_xf :: "primitives \<Rightarrow> complex list \<Rightarrow> real list" where
  "fft_xf env f =
     (let ndata = length f;
          fff = map (\<lambda>z. z / complex_of_real (sqrt (real ndata))) (fft env f);
          A = 1 / sqrt (real ndata - 1)
      in map2 (\<lambda>z k. A * Re z * (- 1) ^ k) fff [0..<ndata])"

definition fft_yf :: "primitives \<Rightarrow> complex list \<Rightarrow> real list" where
  "fft_yf env f =
     (let ndata = length f;
          fff = map (\<lambda>z. z / complex_of_real (sqrt (real ndata))) (fft env f);
          A = 1 / sqrt (real ndata - 1)
      in map2 (\<lambda>z k. A * Im z * (- 1) ^ k) fff [0..<ndata])"

definition fft_wmax :: "primitives \<Rightarrow> complex list \<Rightarrow> nat" where
  "fft_wmax env f = argmax (map2 max (map abs (fft_xf env f)) (map abs (fft_yf env f)))"

definition fft_omegas :: "NAFF \<Rightarrow> complex list \<Rightarrow> real list" where
  "fft_omegas naff f =
     map (\<lambda>w. 2 * pi * w) (fftfreq (length f) (naff_t naff ! 1 - naff_t naff ! 0))"

text \<open>
  The local functions \<^verbatim>\<open>transform\<close>, \<^verbatim>\<open>invtransform\<close> and \<^verbatim>\<open>phi_w\<close> of
  \<^verbatim>\<open>frequency\<close>, with the variables they close over (\<^verbatim>\<open>omin\<close>, \<^verbatim>\<open>omax\<close>, the
  series) as arguments.
\<close>

definition transform :: "real \<Rightarrow> real \<Rightarrow> real \<Rightarrow> real" where
  "transform omin omax x = (x - omin) / (omax - omin)"

definition invtransform :: "real \<Rightarrow> real \<Rightarrow> real \<Rightarrow> real" where
  "invtransform omin omax y = y * (omax - omin) + omin"

definition phi_w :: "NAFF \<Rightarrow> complex list \<Rightarrow> real \<Rightarrow> real \<Rightarrow> real \<Rightarrow> real" where
  "phi_w naff f omin omax w0 =
     (let w = invtransform omin omax w0;
          zreal = map2 (\<lambda>c (z, s). c * (Re z * cos (w * s) + Im z * sin (w * s)))
                    (naff_chi naff) (zip f (naff_tz naff));
          ans = simps zreal (naff_tz naff)
      in - \<bar>ans / (2 * naff_T naff)\<bar>)"

definition omin_of :: "NAFF \<Rightarrow> real \<Rightarrow> real" where
  "omin_of naff omega0 = omega0 - pi / naff_T naff"

definition omax_of :: "NAFF \<Rightarrow> real \<Rightarrow> real" where
  "omax_of naff omega0 = omega0 + pi / naff_T naff"

text \<open>
  The warm start: the minimizing point of the objective on the 50-point grid, or the
  midpoint when every value is below \<open>1E-10\<close> in absolute value.
\<close>

definition init_w_of :: "NAFF \<Rightarrow> complex list \<Rightarrow> real \<Rightarrow> real \<Rightarrow> real" where
  "init_w_of naff f omin omax =
     (let w = linspace01 50;
          phi_vals = map (phi_w naff f omin omax) w;
          phi_ix = argmin phi_vals
      in if list_all (\<lambda>v. \<bar>v\<bar> < 1 / 10 ^ 10) phi_vals then 0.5 else w ! phi_ix)"

text \<open>
  The two calls of the minimizer: from the warm start with at most 50 iterations, and
  from the midpoint with at most 100.
\<close>

definition first_attempt :: "primitives \<Rightarrow> NAFF \<Rightarrow> complex list \<Rightarrow> slsqp_result" where
  "first_attempt env naff f =
     (let omega0 = fft_omegas naff f ! fft_wmax env f;
          omin = omin_of naff omega0;
          omax = omax_of naff omega0
      in fmin_slsqp env (phi_w naff f omin omax) (init_w_of naff f omin omax) 50)"

definition second_attempt :: "primitives \<Rightarrow> NAFF \<Rightarrow> complex list \<Rightarrow> slsqp_result" where
  "second_attempt env naff f =
     (let omega0 = fft_omegas naff f ! fft_wmax env f;
          omin = omin_of naff omega0;
          omax = omax_of naff omega0
      in fmin_slsqp env (phi_w naff f omin omax) 0.5 100)"

text \<open>
  \<^verbatim>\<open>self.t[1]\<close> raises \<^verbatim>\<open>IndexError\<close> on a grid of fewer than two samples. A zero
  \<^verbatim>\<open>xf[wmax]\<close> returns \<open>0\<close> at once ("this may be an axial or planar orbit"). The
  variables \<^verbatim>\<open>signx\<close>, \<^verbatim>\<open>signy\<close> and \<^verbatim>\<open>signo\<close> of the source are never read.
  When the first call of the minimizer reports a nonzero \<^verbatim>\<open>imode\<close>, the result of
  the second call replaces it; \<^verbatim>\<open>freq[0]\<close> is returned de-normalized.
\<close>

definition frequency :: "primitives \<Rightarrow> NAFF \<Rightarrow> complex list \<Rightarrow> error + real" where
  "frequency env naff f =
     (if length (naff_t naff) < 2 then Inl IndexError
      else if fft_xf env f ! fft_wmax env f = 0 then Inr 0
      else
        let omega0 = fft_omegas naff f ! fft_wmax env f;
            omin = omin_of naff omega0;
            omax = omax_of naff omega0;
            res = first_attempt env naff f;
            res = (if slsqp_imode res \<noteq> 0 then second_attempt env naff f else res);
            freq = invtransform omin omax (slsqp_x res)
        in if slsqp_imode res \<noteq> 0
           then Inl (ValueError_minimization (slsqp_imode res) (slsqp_smode res))
           else Inr freq)"

subsection \<open>Gram-Schmidt orthonormalization and subtraction\<close>

text \<open>
  \<^verbatim>\<open>NAFF.gso(self, ecap, nu, k)\<close>. \<open>ecap\<close> is the two-dimensional array of basis
  vectors, one row per component; only the rows below \<open>k\<close> are read. \<open>c_ik\<close> are the
  projection coefficients, \<open>e_i\<close> the residual, \<open>prd\<close> its self inner product
  (\<^verbatim>\<open>prod\<close> in the source) and \<open>nrm\<close> the normalization factor (\<^verbatim>\<open>norm\<close>). The
  source computes \<^verbatim>\<open>1. / np.sqrt(prod)\<close> first and replaces it by zero when
  \<^verbatim>\<open>prod == 0.\<close>
\<close>

definition exp_series :: "NAFF \<Rightarrow> real \<Rightarrow> complex list" where
  "exp_series naff nu = map (\<lambda>x. exp (\<i> * complex_of_real nu * complex_of_real x)) (naff_t naff)"

definition gso_residual :: "NAFF \<Rightarrow> complex list list \<Rightarrow> real \<Rightarrow> nat \<Rightarrow> complex list" where
  "gso_residual naff ecap nu k =
     (let u_n = exp_series naff nu;
          c_ik = map (\<lambda>j. hanning_product naff u_n (ecap ! j)) [0..<k]
      in map2 (\<lambda>u p. u - sum_list (map (\<lambda>j. c_ik ! j * (ecap ! j ! p)) [0..<k]))
           u_n [0..<length u_n])"

definition gso_norm :: "complex \<Rightarrow> complex" where
  "gso_norm prd = (let nrm = 1 / csqrt prd in if prd = 0 then 0 else nrm)"

definition gso :: "NAFF \<Rightarrow> complex list list \<Rightarrow> real \<Rightarrow> nat \<Rightarrow> complex list" where
  "gso naff ecap nu k =
     (let e_i = gso_residual naff ecap nu k;
          prd = hanning_product naff e_i e_i;
          nrm = gso_norm prd
      in map (\<lambda>z. z * nrm) e_i)"

text \<open>\<^verbatim>\<open>NAFF.sub_chi(self, f_km1, ecap_k, a_k)\<close>: the residual series and its peak amplitude.\<close>

definition sub_chi :: "complex list \<Rightarrow> complex list \<Rightarrow> complex \<Rightarrow> complex list \<times> real" where
  "sub_chi f_km1 ecap_k a_k =
     (let f_k = map2 (\<lambda>f e. f - a_k * e) f_km1 ecap_k;
          fmax = Max (set (map cmod f_k))
      in (f_k, fmax))"

subsection \<open>The extraction loop\<close>

text \<open>
  The local variables of \<^verbatim>\<open>NAFF.frecoder\<close>: the residual series \<^verbatim>\<open>fk\<close> and the
  arrays \<^verbatim>\<open>ecap\<close>, \<^verbatim>\<open>nu\<close>, \<^verbatim>\<open>A\<close>, \<^verbatim>\<open>phi\<close>, allocated with \<open>nintvec\<close> rows of
  zeros and written at index \<open>k\<close>. \<open>st_fmax\<close> is not a variable of the source: it logs the
  value of \<^verbatim>\<open>fmax\<close> of every iteration performed, in order, so that the stopping rule
  can be stated about a whole run.
\<close>

record frecoder_state =
  st_fk :: "complex list"
  st_ecap :: "complex list list"
  st_nu :: "real list"
  st_A :: "real list"
  st_phi :: "real list"
  st_fmax :: "real list"

text \<open>
  One pass through the body of the \<^verbatim>\<open>for\<close> loop, without the test of the break
  condition. An exception of \<^verbatim>\<open>frequency\<close> leaves the loop and the function.
  \<^verbatim>\<open>np.arctan2(ab.imag, ab.real)\<close> is the argument of \<open>ab\<close> in \<open>(-\<pi>, \<pi>]\<close>, zero at zero.
\<close>

definition frecoder_body :: "primitives \<Rightarrow> NAFF \<Rightarrow> nat \<Rightarrow> frecoder_state \<Rightarrow> error + frecoder_state" where
  "frecoder_body env naff k st =
     (case frequency env naff (st_fk st) of
        Inl e \<Rightarrow> Inl e
      | Inr nu_k \<Rightarrow>
          let nu = (st_nu st)[k := nu_k];
              ecap_k = (if k = 0 then exp_series naff (nu ! k) else gso naff (st_ecap st) (nu ! k) k);
              ecap = (st_ecap st)[k := ecap_k];
              ab = hanning_product naff (st_fk st) (ecap ! k);
              A = (st_A st)[k := cmod ab];
              phi = (st_phi st)[k := Arg ab];
              (fk, fmax) = sub_chi (st_fk st) (ecap ! k) ab
          in Inr \<lparr>st_fk = fk, st_ecap = ecap, st_nu = nu, st_A = A, st_phi = phi,
                   st_fmax = st_fmax st @ [fmax]\<rparr>)"

text \<open>
  \<^verbatim>\<open>break_condition is not None and (fmax < break_condition or A[k] < break_condition)\<close>,
  read after iteration \<open>k\<close>.
\<close>

definition break_now :: "real option \<Rightarrow> nat \<Rightarrow> frecoder_state \<Rightarrow> bool" where
  "break_now break_condition k st =
     (case break_condition of
        None \<Rightarrow> False
      | Some eps \<Rightarrow> last (st_fmax st) < eps \<or> st_A st ! k < eps)"

text \<open>
  \<^verbatim>\<open>for k in range(nintvec)\<close>: the loop over the remaining values of \<open>k\<close>. The third
  argument is the loop variable as Python keeps it after the loop: \<open>None\<close> while it is
  unbound, \<open>Some k\<close> after an iteration with that \<open>k\<close>.
\<close>

fun frecoder_loop ::
  "primitives \<Rightarrow> NAFF \<Rightarrow> real option \<Rightarrow> nat list \<Rightarrow> nat option \<Rightarrow> frecoder_state
     \<Rightarrow> error + nat option \<times> frecoder_state" where
  "frecoder_loop env naff bc [] kvar st = Inr (kvar, st)"
| "frecoder_loop env naff bc (k # ks) kvar st =
     (case frecoder_body env naff k st of
        Inl e \<Rightarrow> Inl e
      | Inr st' \<Rightarrow>
          if break_now bc k st' then Inr (Some k, st')
          else frecoder_loop env naff bc ks (Some k) st')"

definition frecoder_init :: "NAFF \<Rightarrow> complex list \<Rightarrow> nat \<Rightarrow> frecoder_state" where
  "frecoder_init naff f nintvec =
     \<lparr>st_fk = f,
      st_ecap = replicate nintvec (replicate (length (naff_t naff)) 0),
      st_nu = replicate nintvec 0,
      st_A = replicate nintvec 0,
      st_phi = replicate nintvec 0,
      st_fmax = []\<rparr>"

definition frecoder_run ::
  "primitives \<Rightarrow> NAFF \<Rightarrow> complex list \<Rightarrow> nat \<Rightarrow> real option \<Rightarrow> error + nat option \<times> frecoder_state" where
  "frecoder_run env naff f nintvec break_condition =
     frecoder_loop env naff break_condition [0..<nintvec] None (frecoder_init naff f nintvec)"

text \<open>
  \<^verbatim>\<open>NAFF.frecoder(self, f, nintvec, break_condition)\<close>. The return statement reads the
  loop variable \<open>k\<close>; when the loop never ran it is unbound and Python raises
  \<^verbatim>\<open>UnboundLocalError\<close>. The result is \<^verbatim>\<open>(-nu[:k+1], A[:k+1], phi[:k+1])\<close>.
\<close>

definition frecoder ::
  "primitives \<Rightarrow> NAFF \<Rightarrow> complex list \<Rightarrow> nat \<Rightarrow> real option
     \<Rightarrow> error + real list \<times> real list \<times> real list" where
  "frecoder env naff f nintvec break_condition =
     (case frecoder_run env naff f nintvec break_condition of
        Inl e \<Rightarrow> Inl e
      | Inr (None, st) \<Rightarrow> Inl UnboundLocalError
      | Inr (Some k, st) \<Rightarrow>
          Inr (map uminus (take (k + 1) (st_nu st)), take (k + 1) (st_A st),
               take (k + 1) (st_phi st)))"

subsection \<open>The table of components\<close>

text \<open>
  One row of the structured array \<^verbatim>\<open>d\<close> of \<^verbatim>\<open>find_fundamental_frequencies\<close>, with
  the fields \<^verbatim>\<open>'freq'\<close>, \<^verbatim>\<open>'A'\<close>, \<^verbatim>\<open>'|A|'\<close>, \<^verbatim>\<open>'phi'\<close> and \<^verbatim>\<open>'n'\<close> (the index
  of the series the component was extracted from).
\<close>

record component =
  c_freq :: real
  c_A :: complex
  c_absA :: real
  c_phi :: real
  c_n :: nat

text \<open>
  The rows of dimension \<open>i\<close>, from the three arrays \<^verbatim>\<open>nu, A, phi\<close> that \<^verbatim>\<open>frecoder\<close>
  returned: \<^verbatim>\<open>freqs.append(-nu)\<close>, \<^verbatim>\<open>As.append(A*np.exp(1j*phi))\<close>,
  \<^verbatim>\<open>amps.append(A)\<close>, \<^verbatim>\<open>phis.append(phi)\<close>, \<^verbatim>\<open>nqs.append(np.zeros_like(nu) + i)\<close>.
\<close>

definition table_rows :: "real list \<times> real list \<times> real list \<Rightarrow> nat \<Rightarrow> component list" where
  "table_rows r i =
     (case r of (nu, A, phi) \<Rightarrow>
        map (\<lambda>(nu_k, A_k, phi_k).
               \<lparr>c_freq = - nu_k,
                c_A = complex_of_real A_k * exp (\<i> * complex_of_real phi_k),
                c_absA = A_k, c_phi = phi_k, c_n = i\<rparr>)
            (zip nu (zip A phi)))"

text \<open>
  The loop \<^verbatim>\<open>for i in range(ndim)\<close> and the concatenation of the per-dimension arrays.
  An exception of \<^verbatim>\<open>frecoder\<close> is propagated.
\<close>

fun collect_rows ::
  "primitives \<Rightarrow> NAFF \<Rightarrow> nat \<Rightarrow> real option \<Rightarrow> complex list list \<Rightarrow> nat
     \<Rightarrow> error + component list" where
  "collect_rows env naff nintvec bc [] i = Inr []"
| "collect_rows env naff nintvec bc (f # fs) i =
     (case frecoder env naff f nintvec bc of
        Inl e \<Rightarrow> Inl e
      | Inr r \<Rightarrow>
          (case collect_rows env naff nintvec bc fs (Suc i) of
             Inl e \<Rightarrow> Inl e
           | Inr rows \<Rightarrow> Inr (table_rows r i @ rows)))"

text \<open>
  \<^verbatim>\<open>argsort\<close> of numpy, as a stable sort of the indices by their keys. numpy's default
  sort does not promise an order among equal keys, so the order of rows of equal
  amplitude is a choice of this model; the properties below use only that the result is a
  sorted permutation, or hold for every table. \<^verbatim>\<open>d[d['|A|'].argsort()[::-1]]\<close> is
  \<open>sort_by_amplitude\<close>. With no series at all, \<^verbatim>\<open>np.concatenate\<close> of the empty list
  raises \<^verbatim>\<open>ValueError\<close>.
\<close>

definition argsort :: "'a::linorder list \<Rightarrow> nat list" where
  "argsort keys = sort_key (\<lambda>i. keys ! i) [0..<length keys]"

definition sort_by_amplitude :: "component list \<Rightarrow> component list" where
  "sort_by_amplitude d = map (\<lambda>i. d ! i) (rev (argsort (map c_absA d)))"

definition component_table ::
  "primitives \<Rightarrow> NAFF \<Rightarrow> complex list list \<Rightarrow> nat \<Rightarrow> real option \<Rightarrow> error + component list" where
  "component_table env naff fs nintvec break_condition =
     (case collect_rows env naff nintvec break_condition fs 0 of
        Inl e \<Rightarrow> Inl e
      | Inr d \<Rightarrow> if fs = [] then Inl ValueError_empty else Inr (sort_by_amplitude d))"

subsection \<open>Selection of the fundamental frequencies\<close>

text \<open>
  \<^verbatim>\<open>np.where(cond)[0]\<close>: the indices of the rows that satisfy a condition, ascending.
  The three conditions of the source follow; \<open>n0\<close>, \<open>n1\<close> are the dimensions and \<open>f0\<close>,
  \<open>f1\<close> the frequencies of the fundamentals chosen before.
\<close>

definition where_rows :: "(component \<Rightarrow> bool) \<Rightarrow> component list \<Rightarrow> nat list" where
  "where_rows P d = filter (\<lambda>i. P (d ! i)) [0..<length d]"

definition cond_first :: "component \<Rightarrow> bool" where
  "cond_first c = (\<bar>c_freq c\<bar> > 1 / 10 ^ 5)"

definition cond_second :: "nat \<Rightarrow> real \<Rightarrow> component \<Rightarrow> bool" where
  "cond_second n0 f0 c =
     (\<bar>c_freq c\<bar> > 1 / 10 ^ 5 \<and> c_n c \<noteq> n0 \<and> \<bar>\<bar>f0\<bar> - \<bar>c_freq c\<bar>\<bar> > 1 / 10 ^ 6)"

definition cond_third :: "nat \<Rightarrow> nat \<Rightarrow> real \<Rightarrow> real \<Rightarrow> component \<Rightarrow> bool" where
  "cond_third n0 n1 f0 f1 c =
     (\<bar>c_freq c\<bar> > 1 / 10 ^ 5 \<and> c_n c \<noteq> n0 \<and> c_n c \<noteq> n1 \<and>
      \<bar>\<bar>f0\<bar> - \<bar>c_freq c\<bar>\<bar> > 1 / 10 ^ 6 \<and> \<bar>\<bar>f1\<bar> - \<bar>c_freq c\<bar>\<bar> > 1 / 10 ^ 6)"

text \<open>
  The second half of \<^verbatim>\<open>find_fundamental_frequencies\<close>, from the sorted table \<open>d\<close>.
  \<^verbatim>\<open>ffreq\<close>, \<^verbatim>\<open>ffreq_ixes\<close> and \<^verbatim>\<open>nqs\<close> are arrays of \<open>ndim\<close> zeros written at the
  indices 0, 1 and 2. \<^verbatim>\<open>ixes[0]\<close> raises \<^verbatim>\<open>IndexError\<close> when no row satisfies the
  condition, and so does the assignment to \<^verbatim>\<open>ffreq[0]\<close> when \<open>ndim\<close> is zero. The result is \<^verbatim>\<open>(ffreq[nqs.argsort()], d, ffreq_ixes[nqs.argsort()])\<close>
  (for one dimension \<^verbatim>\<open>(ffreq, d, ffreq_ixes)\<close>).
\<close>

definition select_fundamentals ::
  "nat \<Rightarrow> component list \<Rightarrow> error + real list \<times> component list \<times> nat list" where
  "select_fundamentals ndim d =
     (let ffreq = replicate ndim 0;
          ffreq_ixes = replicate ndim 0;
          nqs = replicate ndim 0;
          ixes = where_rows cond_first d
      in if ixes = [] \<or> ndim = 0 then Inl IndexError
         else
           let ffreq = ffreq[0 := c_freq (d ! (ixes ! 0))];
               ffreq_ixes = ffreq_ixes[0 := ixes ! 0];
               nqs = nqs[0 := c_n (d ! (ixes ! 0))]
           in if ndim = 1 then Inr (ffreq, d, ffreq_ixes)
              else
                let ixes = where_rows (cond_second (c_n (d ! (ffreq_ixes ! 0))) (ffreq ! 0)) d
                in if ixes = [] then Inl IndexError
                   else
                     let ffreq = ffreq[1 := c_freq (d ! (ixes ! 0))];
                         ffreq_ixes = ffreq_ixes[1 := ixes ! 0];
                         nqs = nqs[1 := c_n (d ! (ixes ! 0))]
                     in if ndim = 2
                        then Inr (map (\<lambda>i. ffreq ! i) (argsort nqs), d,
                                  map (\<lambda>i. ffreq_ixes ! i) (argsort nqs))
                        else
                          let ixes = where_rows
                                (cond_third (c_n (d ! (ffreq_ixes ! 0))) (c_n (d ! (ffreq_ixes ! 1)))
                                   (ffreq ! 0) (ffreq ! 1)) d
                          in if ixes = [] then Inl IndexError
                             else
                               let ffreq = ffreq[2 := c_freq (d ! (ixes ! 0))];
                                   ffreq_ixes = ffreq_ixes[2 := ixes ! 0];
                                   nqs = nqs[2 := c_n (d ! (ixes ! 0))]
                               in if remdups (sort nqs) \<noteq> [0, 1, 2] then Inl ValueError_xyz
                                  else Inr (map (\<lambda>i. ffreq ! i) (argsort nqs), d,
                                            map (\<lambda>i. ffreq_ixes ! i) (argsort nqs)))"

text \<open>
  \<^verbatim>\<open>NAFF.find_fundamental_frequencies(self, fs, nintvec, imax, break_condition)\<close>;
  \<open>ndim\<close> is \<^verbatim>\<open>len(fs)\<close>. The parameter \<^verbatim>\<open>imax\<close> is not read by the source.
\<close>

definition find_fundamental_frequencies ::
  "primitives \<Rightarrow> NAFF \<Rightarrow> complex list list \<Rightarrow> nat \<Rightarrow> real option
     \<Rightarrow> error + real list \<times> component list \<times> nat list" where
  "find_fundamental_frequencies env naff fs nintvec break_condition =
     (case component_table env naff fs nintvec break_condition of
        Inl e \<Rightarrow> Inl e
      | Inr d \<Rightarrow> select_fundamentals (length fs) d)"

subsection \<open>Integer vectors\<close>

text \<open>
  \<^verbatim>\<open>np.vstack(np.vstack(np.mgrid[slc].T))\<close> for \<open>m\<close> slices \<^verbatim>\<open>-imax:imax+1\<close>, with
  \<open>m\<close> from 1 to 3: all tuples of length \<open>m\<close> over \<open>-imax..imax\<close>, the first entry varying
  fastest. \<^verbatim>\<open>nvecs.dot(ffreqs)\<close> is \<open>dot\<close> of every row.
\<close>

fun nvecs_of :: "int \<Rightarrow> nat \<Rightarrow> int list list" where
  "nvecs_of imax 0 = [[]]"
| "nvecs_of imax (Suc m) = concat (map (\<lambda>x. map (\<lambda>v. v @ [x]) (nvecs_of imax m)) [- imax..imax])"

definition dot :: "int list \<Rightarrow> real list \<Rightarrow> real" where
  "dot v ffreqs = sum_list (map2 (\<lambda>n f. real_of_int n * f) v ffreqs)"

text \<open>
  \<^verbatim>\<open>NAFF.find_integer_vectors(self, ffreqs, d, imax)\<close>. For every row of the table the
  errors of all tuples, their minimum (\<^verbatim>\<open>err[i]\<close>) and the tuple at the first
  minimum. The function returns the tuples \<^verbatim>\<open>d_nvec\<close> only.

  Outside \<open>1 \<le> m \<le> 3\<close> and \<open>0 \<le> imax\<close> the grid is not the list of tuples, and the
  model follows numpy there. With no fundamental, \<^verbatim>\<open>np.vstack\<close> gets an empty array and
  raises \<^verbatim>\<open>ValueError\<close>. With a negative \<open>imax\<close>, \<^verbatim>\<open>np.mgrid\<close> computes a negative
  size and raises \<^verbatim>\<open>ValueError\<close>. With four or more fundamentals the two calls of
  \<^verbatim>\<open>np.vstack\<close> merge only the first three axes of the grid: \<^verbatim>\<open>nvecs\<close> has
  \<open>(2 imax + 1)\<^sup>3\<close> entries along its first axis, each of them an array of tuples, while
  \<^verbatim>\<open>this_err.argmin()\<close> is the index in the flattened array of errors, which are in the
  order of \<open>nvecs_of\<close>. For the first row, \<^verbatim>\<open>nvecs[this_err.argmin()]\<close> then raises
  \<^verbatim>\<open>IndexError\<close> when that index is beyond the first axis, and otherwise the assignment
  to \<^verbatim>\<open>d_nvec[i]\<close> raises \<^verbatim>\<open>ValueError\<close> (the shapes do not match), unless
  \<open>imax = 0\<close>, where the only tuple is the zero tuple and the assignment succeeds.
\<close>

definition this_err :: "real list \<Rightarrow> int \<Rightarrow> component \<Rightarrow> real list" where
  "this_err ffreqs imax c =
     map (\<lambda>v. \<bar>c_freq c - dot v ffreqs\<bar>) (nvecs_of imax (length ffreqs))"

definition find_integer_vectors ::
  "real list \<Rightarrow> component list \<Rightarrow> int \<Rightarrow> error + int list list" where
  "find_integer_vectors ffreqs d imax =
     (let nfreqs = length ffreqs;
          nvecs = nvecs_of imax nfreqs
      in if nfreqs = 0 then Inl ValueError_empty
         else if imax < 0 then Inl ValueError_mgrid
         else if 4 \<le> nfreqs \<and> 1 \<le> imax \<and> d \<noteq> [] then
           (if argmin (this_err ffreqs imax (d ! 0)) < nat (2 * imax + 1) ^ 3
            then Inl ValueError_broadcast else Inl IndexError)
         else Inr (map (\<lambda>c. nvecs ! argmin (this_err ffreqs imax c)) d))"

subsection \<open>Example inputs\<close>

text \<open>
  Small concrete inputs on which the functions are evaluated below. \<open>grid3\<close>, \<open>grid4\<close>
  and \<open>grid5\<close> are the objects that \<open>NAFF_init\<close> builds from the uniform grids
  \<open>[0, 1, 2]\<close>, \<open>[0, 1, 2, 3]\<close> and \<open>[0, 1, 2, 3, 4]\<close>.
\<close>

definition grid3 :: NAFF where
  "grid3 = \<lparr>naff_t = [0, 1, 2], naff_ts = 1, naff_T = 1,
             naff_tz = [- 1, 0, 1], naff_chi = [0, 2, 0]\<rparr>"

definition grid4 :: NAFF where
  "grid4 = \<lparr>naff_t = [0, 1, 2, 3], naff_ts = 3 / 2, naff_T = 3 / 2,
             naff_tz = [- 3 / 2, - 1 / 2, 1 / 2, 3 / 2], naff_chi = [0, 3 / 2, 3 / 2, 0]\<rparr>"

definition grid5 :: NAFF where
  "grid5 = \<lparr>naff_t = [0, 1, 2, 3, 4], naff_ts = 2, naff_T = 2,
             naff_tz = [- 2, - 1, 0, 1, 2], naff_chi = [0, 1, 2, 1, 0]\<rparr>"

text \<open>
  The series \<open>exp (i (\<pi>/2) t)\<close> on the grid \<open>[0, 1, 2, 3]\<close>, whose discrete Fourier
  transform is \<open>[0, 4, 0, 0]\<close>, and the zero series on three samples, whose transform is
  zero. \<open>env_ok\<close> has a minimizer that converges at the midpoint of the window at once,
  \<open>env_fail\<close> one that reports "Iteration limit exceeded" (\<^verbatim>\<open>imode\<close> 9) on every call.
\<close>

definition quarter_turn :: "complex list" where
  "quarter_turn = [1, \<i>, - 1, - \<i>]"

definition fft_quarter_turn :: "complex list \<Rightarrow> complex list" where
  "fft_quarter_turn f = [0, 4, 0, 0]"

definition fft_zero :: "complex list \<Rightarrow> complex list" where
  "fft_zero f = map (\<lambda>z. 0) f"

definition slsqp_converged :: "(real \<Rightarrow> real) \<Rightarrow> real \<Rightarrow> nat \<Rightarrow> slsqp_result" where
  "slsqp_converged func x0 iter =
     \<lparr>slsqp_x = 1 / 2, slsqp_fx = func (1 / 2), slsqp_its = 1, slsqp_imode = 0,
      slsqp_smode = ''Optimization terminated successfully.''\<rparr>"

definition slsqp_exhausted :: "(real \<Rightarrow> real) \<Rightarrow> real \<Rightarrow> nat \<Rightarrow> slsqp_result" where
  "slsqp_exhausted func x0 iter =
     \<lparr>slsqp_x = x0, slsqp_fx = func x0, slsqp_its = iter, slsqp_imode = 9,
      slsqp_smode = ''Iteration limit exceeded''\<rparr>"

definition env_ok :: primitives where
  "env_ok = \<lparr>fft = fft_quarter_turn, fmin_slsqp = slsqp_converged\<rparr>"

definition env_fail :: primitives where
  "env_fail = \<lparr>fft = fft_quarter_turn, fmin_slsqp = slsqp_exhausted\<rparr>"

definition env_zero :: primitives where
  "env_zero = \<lparr>fft = fft_zero, fmin_slsqp = slsqp_converged\<rparr>"

text \<open>
  A minimizer that exhausts a budget of 50 iterations and converges, at the midpoint,
  with a larger one.
\<close>

definition slsqp_slow :: "(real \<Rightarrow> real) \<Rightarrow> real \<Rightarrow> nat \<Rightarrow> slsqp_result" where
  "slsqp_slow func x0 iter =
     (if iter \<le> 50 then slsqp_exhausted func x0 iter else slsqp_converged func x0 iter)"

definition env_retry :: primitives where
  "env_retry = \<lparr>fft = fft_quarter_turn, fmin_slsqp = slsqp_slow\<rparr>"

text \<open>A row of the table with a given frequency, of unit amplitude, from dimension 0.\<close>

definition row_of_freq :: "real \<Rightarrow> component" where
  "row_of_freq w = \<lparr>c_freq = w, c_A = 1, c_absA = 1, c_phi = 0, c_n = 0\<rparr>"

text \<open>
  Three tones on the grid \<open>[0, 1, 2]\<close>: the constant series of amplitude 3, the series
  \<open>2 exp (i (2\<pi>/3) t)\<close> and the series \<open>exp (- i (2\<pi>/3) t)\<close>; \<open>w3\<close> is the cube root of
  unity \<open>exp (2\<pi>i/3)\<close>. Their discrete Fourier transforms are \<open>[9, 0, 0]\<close>,
  \<open>[0, 6, 0]\<close> and \<open>[0, 0, 3]\<close>, which is what \<open>fft_tones\<close> returns for them. On this grid
  the window vanishes at both ends, the objective of the refinement is constant, and
  \<open>slsqp_flat\<close> is a minimizer that stops at its starting point.
\<close>

definition w3 :: complex where
  "w3 = Complex (- 1 / 2) (sqrt 3 / 2)"

definition tone0 :: "complex list" where
  "tone0 = [3, 3, 3]"

definition tone1 :: "complex list" where
  "tone1 = [2, 2 * w3, 2 * cnj w3]"

definition tone2 :: "complex list" where
  "tone2 = [1, cnj w3, w3]"

definition fft_tones :: "complex list \<Rightarrow> complex list" where
  "fft_tones f = (if f = tone0 then [9, 0, 0] else if f = tone1 then [0, 6, 0] else [0, 0, 3])"

definition slsqp_flat :: "(real \<Rightarrow> real) \<Rightarrow> real \<Rightarrow> nat \<Rightarrow> slsqp_result" where
  "slsqp_flat func x0 iter =
     \<lparr>slsqp_x = x0, slsqp_fx = func x0, slsqp_its = 1, slsqp_imode = 0,
      slsqp_smode = ''Optimization terminated successfully.''\<rparr>"

definition env_tones :: primitives where
  "env_tones = \<lparr>fft = fft_tones, fmin_slsqp = slsqp_flat\<rparr>"

section \<open>Properties\<close>

subsection \<open>The quadrature rule is odd in its samples\<close>

lemma basic_simps_uminus: "basic_simps (map uminus y) x = - basic_simps y x"
  by (induction y x rule: basic_simps.induct) (simp_all add: Let_def algebra_simps)

lemma simps_uminus: "simps (map uminus y) x = - simps y x"
proof (cases "y = []")
  case True
  then show ?thesis by (simp add: simps_def)
next
  case False
  show ?thesis
  proof (cases "even (length y)")
    case odd: False
    then show ?thesis using False by (simp add: simps_def basic_simps_uminus)
  next
    case True
    with False have len: "2 \<le> length y"
      by (cases y) (auto simp: Suc_le_eq)
    then have nths: "map uminus y ! (length y - Suc 0) = - (y ! (length y - Suc 0))"
      "map uminus y ! (length y - 2) = - (y ! (length y - 2))"
      "map uminus y ! Suc 0 = - (y ! Suc 0)" "map uminus y ! 0 = - (y ! 0)"
      using nth_map [of "length y - Suc 0" y uminus] nth_map [of "length y - 2" y uminus]
        nth_map [of "Suc 0" y uminus] nth_map [of 0 y uminus] False
      by simp_all
    have bs: "basic_simps (butlast (map uminus y)) (butlast x) = - basic_simps (butlast y) (butlast x)"
      "basic_simps (tl (map uminus y)) (tl x) = - basic_simps (tl y) (tl x)"
      by (simp_all add: map_butlast [symmetric] map_tl [symmetric] basic_simps_uminus)
    show ?thesis using True False
      by (simp add: simps_def Let_def nths bs diff_divide_distrib add_divide_distrib algebra_simps)
  qed
qed

subsection \<open>The weighted inner product\<close>

lemma hanning_integrand_swap:
  "hanning_integrand naff u2 u1 = map cnj (hanning_integrand naff u1 u2)"
  unfolding hanning_integrand_def
  by (rule nth_equalityI) (simp_all add: min.commute)

lemma map_Re_cnj: "map Re (map cnj zs) = map Re zs"
  by (induction zs) simp_all

lemma map_Im_cnj: "map Im (map cnj zs) = map uminus (map Im zs)"
  by (induction zs) simp_all

lemma hanning_product_Re_Im:
  "Re (hanning_product naff u v) =
     simps (map Re (hanning_integrand naff u v)) (naff_tz naff) / (2 * naff_T naff)"
  "Im (hanning_product naff u v) =
     simps (map Im (hanning_integrand naff u v)) (naff_tz naff) / (2 * naff_T naff)"
  by (simp_all add: hanning_product_def Let_def)

text \<open>
  C8. The weighted inner product is conjugate-symmetric: for all complex series \<open>u\<close> and
  \<open>v\<close> and every time grid, \<open>hanning_product(u, v)\<close> is the complex conjugate of
  \<open>hanning_product(v, u)\<close>, exactly, in exact arithmetic over the embedded quadrature.
\<close>

theorem hanning_product_conjugate_symmetric:
  "hanning_product naff u v = cnj (hanning_product naff v u)"
proof (rule complex_eqI)
  have sw: "hanning_integrand naff u v = map cnj (hanning_integrand naff v u)"
    by (rule hanning_integrand_swap)
  show "Re (hanning_product naff u v) = Re (cnj (hanning_product naff v u))"
    by (simp add: hanning_product_Re_Im sw map_Re_cnj del: map_map)
  show "Im (hanning_product naff u v) = Im (cnj (hanning_product naff v u))"
    by (simp add: hanning_product_Re_Im sw map_Im_cnj simps_uminus del: map_map)
qed

subsection \<open>The example grids\<close>

lemma NAFF_init_grid3: "NAFF_init [0, 1, 2] = Inr grid3"
  by (simp add: NAFF_init_def Let_def hanning_def grid3_def)

lemma NAFF_init_grid4: "NAFF_init [0, 1, 2, 3] = Inr grid4"
  by (simp add: NAFF_init_def Let_def hanning_def cos_60 grid4_def)

lemma NAFF_init_grid5: "NAFF_init [0, 1, 2, 3, 4] = Inr grid5"
  by (simp add: NAFF_init_def Let_def hanning_def grid5_def)

lemma hanning_product_grid3:
  "hanning_product grid3 [a0, a1, a2] [b0, b1, b2] = 4 * (a1 * cnj b1) / 3"
  by (rule complex_eqI)
    (simp_all add: hanning_product_def hanning_integrand_def simps_def Let_def grid3_def field_simps)

lemma hanning_product_grid4:
  "hanning_product grid4 [1, 1, 1, 1] [1, 1, 1, 1] = 13 / 12"
  by (rule complex_eqI)
    (simp_all add: hanning_product_def hanning_integrand_def simps_def Let_def grid4_def field_simps)



subsection \<open>The constructor of the time grid\<close>

text \<open>
  C6, as the code has it. \<open>NAFF.__init__\<close> checks nothing about the length of the grid:
  the empty array fails with \<open>IndexError\<close> (from \<open>t[-1]\<close>), and every other array, of even
  or of odd length, is accepted as it is, neither rejected nor padded: the object keeps
  the array, and \<open>tz\<close> and \<open>chi\<close> have its length.
\<close>

theorem NAFF_init_no_length_check:
  "(t = [] \<longrightarrow> NAFF_init t = Inl IndexError) \<and>
   (t \<noteq> [] \<longrightarrow> (\<exists>naff. NAFF_init t = Inr naff \<and> naff_t naff = t \<and>
      length (naff_tz naff) = length t \<and> length (naff_chi naff) = length t))"
  by (simp add: NAFF_init_def Let_def)

theorem NAFF_init_no_length_check_witness:
  "\<exists>naff. NAFF_init [0, 1, 2, 3] = Inr naff \<and> naff_t naff = [0, 1, 2, 3] \<and>
      length (naff_tz naff) = length [0, 1, 2, 3 :: real] \<and>
      length (naff_chi naff) = length [0, 1, 2, 3 :: real]"
  using NAFF_init_no_length_check [of "[0, 1, 2, 3]"] by simp

text \<open>
  C6 fails as stated: the grid \<open>[0, 1, 2, 3]\<close> has an even number of samples, the
  constructor accepts it with its four samples, and the weighted inner product integrates
  over it (the quadrature rule takes the mean of its two one-sided Simpson sums).
\<close>

theorem NAFF_init_even_grid_accepted:
  "even (length [0, 1, 2, 3 :: real]) \<and> NAFF_init [0, 1, 2, 3] = Inr grid4 \<and>
   naff_t grid4 = [0, 1, 2, 3] \<and>
   hanning_product grid4 [1, 1, 1, 1] [1, 1, 1, 1] = 13 / 12"
  by (simp add: NAFF_init_grid4 hanning_product_grid4) (simp add: grid4_def)

subsection \<open>The degenerate case of the orthonormalization\<close>

lemma length_gso_residual: "length (gso_residual naff ecap nu k) = length (naff_t naff)"
  by (simp add: gso_residual_def exp_series_def Let_def)




subsection \<open>Integer vectors\<close>

lemma length_takeWhile_less_length:
  "\<exists>x\<in>set xs. \<not> P x \<Longrightarrow> length (takeWhile P xs) < length xs"
  by (induction xs) auto

lemma argmin_less: "xs \<noteq> [] \<Longrightarrow> argmin xs < length xs"
proof -
  assume ne: "xs \<noteq> []"
  then have "Min (set xs) \<in> set xs" by (intro Min_in) simp_all
  then have "\<exists>x\<in>set xs. \<not> x \<noteq> Min (set xs)" by auto
  then show ?thesis
    unfolding argmin_def by (rule length_takeWhile_less_length)
qed

lemma argmin_Min: "xs \<noteq> [] \<Longrightarrow> xs ! argmin xs = Min (set xs)"
  using argmin_less [of xs] nth_length_takeWhile [of "\<lambda>v. v \<noteq> Min (set xs)" xs]
  by (simp add: argmin_def)

lemma argmin_le: "xs \<noteq> [] \<Longrightarrow> x \<in> set xs \<Longrightarrow> xs ! argmin xs \<le> x"
  by (simp add: argmin_Min)

lemma set_nvecs_of:
  "set (nvecs_of imax m) = {v. length v = m \<and> (\<forall>x\<in>set v. - imax \<le> x \<and> x \<le> imax)}"
proof (induction m)
  case 0
  show ?case by auto
next
  case (Suc m)
  show ?case
  proof (intro set_eqI iffI)
    fix v assume "v \<in> set (nvecs_of imax (Suc m))"
    then show "v \<in> {v. length v = Suc m \<and> (\<forall>x\<in>set v. - imax \<le> x \<and> x \<le> imax)}"
      using Suc.IH by auto
  next
    fix v assume "v \<in> {v. length v = Suc m \<and> (\<forall>x\<in>set v. - imax \<le> x \<and> x \<le> imax)}"
    then have l: "length v = Suc m" and r: "\<forall>x\<in>set v. - imax \<le> x \<and> x \<le> imax" by auto
    from l have ne: "v \<noteq> []" by auto
    then have v: "butlast v @ [last v] = v" by simp
    have b: "butlast v \<in> set (nvecs_of imax m)"
      using Suc.IH l r by (auto dest: in_set_butlastD)
    have la: "last v \<in> set [- imax..imax]"
      using r ne by auto
    have "butlast v @ [last v] \<in> set (nvecs_of imax (Suc m))"
      using b la by auto
    then show "v \<in> set (nvecs_of imax (Suc m))"
      using v by simp
  qed
qed


lemma nvecs_of_nonempty: "0 \<le> imax \<Longrightarrow> nvecs_of imax m \<noteq> []"
proof -
  assume "0 \<le> imax"
  then have "replicate m 0 \<in> set (nvecs_of imax m)"
    by (simp add: set_nvecs_of)
  then show ?thesis by auto
qed

text \<open>
  C9. For fundamentals of length \<open>m\<close> from 1 to 3, a bound \<open>imax\<close> that is not negative
  and every row \<open>i\<close> of the table, \<open>find_integer_vectors\<close> returns for that row an
  integer tuple of length \<open>m\<close> with every entry in \<open>-imax..imax\<close> whose error
  \<open>|freq - n . fundamentals|\<close> is least among all such tuples. Consequently, when the
  frequency of the row is exactly \<open>n0 . fundamentals\<close> for a tuple \<open>n0\<close> of that range, the
  error of the returned tuple is 0.
\<close>

theorem find_integer_vectors_minimizes:
  assumes m: "1 \<le> length ffreqs" "length ffreqs \<le> 3"
    and imax: "0 \<le> imax" and i: "i < length d"
  shows "\<exists>r. find_integer_vectors ffreqs d imax = Inr r \<and> length r = length d \<and>
           length (r ! i) = length ffreqs \<and>
           (\<forall>x\<in>set (r ! i). - imax \<le> x \<and> x \<le> imax) \<and>
           (\<forall>v. length v = length ffreqs \<and> (\<forall>x\<in>set v. - imax \<le> x \<and> x \<le> imax) \<longrightarrow>
              \<bar>c_freq (d ! i) - dot (r ! i) ffreqs\<bar> \<le> \<bar>c_freq (d ! i) - dot v ffreqs\<bar>) \<and>
           (\<forall>n0. length n0 = length ffreqs \<and> (\<forall>x\<in>set n0. - imax \<le> x \<and> x \<le> imax) \<and>
              c_freq (d ! i) = dot n0 ffreqs \<longrightarrow>
              \<bar>c_freq (d ! i) - dot (r ! i) ffreqs\<bar> = 0)"
proof -
  define nvecs where "nvecs = nvecs_of imax (length ffreqs)"
  define errs where "errs = this_err ffreqs imax (d ! i)"
  define r where "r = map (\<lambda>c. nvecs ! argmin (this_err ffreqs imax c)) d"
  have ne: "nvecs \<noteq> []"
    unfolding nvecs_def using imax by (rule nvecs_of_nonempty)
  have res: "find_integer_vectors ffreqs d imax = Inr r"
    using ne m imax by (auto simp: find_integer_vectors_def Let_def r_def nvecs_def)
  have errs: "errs = map (\<lambda>v. \<bar>c_freq (d ! i) - dot v ffreqs\<bar>) nvecs"
    by (simp add: errs_def this_err_def nvecs_def)
  then have errs_ne: "errs \<noteq> []" and len: "length errs = length nvecs"
    using ne by simp_all
  have am: "argmin errs < length nvecs"
    using argmin_less [OF errs_ne] len by simp
  have ri: "r ! i = nvecs ! argmin errs"
    using i by (simp add: r_def errs_def)
  have mem: "r ! i \<in> set nvecs"
    using am ri by simp
  then have shape: "length (r ! i) = length ffreqs" "\<forall>x\<in>set (r ! i). - imax \<le> x \<and> x \<le> imax"
    by (simp_all add: nvecs_def set_nvecs_of)
  have val: "errs ! argmin errs = \<bar>c_freq (d ! i) - dot (r ! i) ffreqs\<bar>"
    using am by (simp add: errs ri)
  have least: "\<bar>c_freq (d ! i) - dot (r ! i) ffreqs\<bar> \<le> \<bar>c_freq (d ! i) - dot v ffreqs\<bar>"
    if "length v = length ffreqs" "\<forall>x\<in>set v. - imax \<le> x \<and> x \<le> imax" for v
  proof -
    from that have "v \<in> set nvecs" by (simp add: nvecs_def set_nvecs_of)
    then have "\<bar>c_freq (d ! i) - dot v ffreqs\<bar> \<in> set errs" by (auto simp: errs)
    from argmin_le [OF errs_ne this] show ?thesis by (simp add: val)
  qed
  have exact: "\<bar>c_freq (d ! i) - dot (r ! i) ffreqs\<bar> = 0"
    if "length n0 = length ffreqs" "\<forall>x\<in>set n0. - imax \<le> x \<and> x \<le> imax"
      "c_freq (d ! i) = dot n0 ffreqs" for n0
    using least [OF that(1,2)] that(3) by simp
  have "length r = length d" by (simp add: r_def)
  with res shape least exact show ?thesis by blast
qed

lemma nvecs_2_1: "nvecs_of 2 (Suc 0) = [[- 2], [- 1], [0], [1], [2]]"
  by code_simp

lemma this_err_example:
  "this_err [1 / 2] 2 (row_of_freq 1) = [2, 3 / 2, 1, 1 / 2, 0]"
  by (simp add: this_err_def nvecs_2_1 dot_def row_of_freq_def del: nvecs_of.simps)

lemma argmin_example: "argmin [2, 3 / 2, 1, 1 / 2, 0] = 4"
  by (simp add: argmin_def)

lemma fiv_example: "find_integer_vectors [1 / 2] [row_of_freq 1] 2 = Inr [[2]]"
  by (simp add: find_integer_vectors_def Let_def this_err_example argmin_example nvecs_2_1
      del: nvecs_of.simps)


text \<open>
  The hypotheses hold for one fundamental \<open>1/2\<close>, \<open>imax = 2\<close> and a table of one row of
  frequency 1: the tuples are \<open>[-2], \<dots>, [2]\<close>, and the function returns \<open>[2]\<close>, whose
  error is 0.
\<close>

theorem find_integer_vectors_minimizes_witness:
  "find_integer_vectors [1 / 2] [row_of_freq 1] 2 = Inr [[2]] \<and>
   \<bar>c_freq (row_of_freq 1) - dot [2] [1 / 2]\<bar> = 0 \<and>
   (\<exists>r. find_integer_vectors [1 / 2] [row_of_freq 1] 2 = Inr r \<and>
      length r = length [row_of_freq 1] \<and>
      length (r ! 0) = length [1 / 2 :: real] \<and>
      (\<forall>x\<in>set (r ! 0). - 2 \<le> x \<and> x \<le> 2) \<and>
      (\<forall>v. length v = length [1 / 2 :: real] \<and> (\<forall>x\<in>set v. - 2 \<le> x \<and> x \<le> 2) \<longrightarrow>
         \<bar>c_freq ([row_of_freq 1] ! 0) - dot (r ! 0) [1 / 2]\<bar>
           \<le> \<bar>c_freq ([row_of_freq 1] ! 0) - dot v [1 / 2]\<bar>) \<and>
      (\<forall>n0. length n0 = length [1 / 2 :: real] \<and> (\<forall>x\<in>set n0. - 2 \<le> x \<and> x \<le> 2) \<and>
         c_freq ([row_of_freq 1] ! 0) = dot n0 [1 / 2] \<longrightarrow>
         \<bar>c_freq ([row_of_freq 1] ! 0) - dot (r ! 0) [1 / 2]\<bar> = 0))"
proof -
  have h: "1 \<le> length [1 / 2 :: real]" "length [1 / 2 :: real] \<le> 3" "(0::int) \<le> 2"
    "0 < length [row_of_freq 1]"
    by simp_all
  have e: "\<bar>c_freq (row_of_freq 1) - dot [2] [1 / 2]\<bar> = 0"
    by (simp add: row_of_freq_def dot_def)
  from fiv_example e find_integer_vectors_minimizes [OF h] show ?thesis
    by (intro conjI)
qed

subsection \<open>The frequency refinement\<close>

lemma upt_4: "[0..<4] = [0, 1, 2, 3]"
  by code_simp

lemma fft_xf_quarter_turn:
  "fft env = fft_quarter_turn \<Longrightarrow> fft_xf env quarter_turn = [0, - 2 / sqrt 3, 0, 0]"
  by (simp add: fft_xf_def fft_quarter_turn_def quarter_turn_def Let_def upt_4)

lemma fft_yf_quarter_turn:
  "fft env = fft_quarter_turn \<Longrightarrow> fft_yf env quarter_turn = [0, 0, 0, 0]"
  by (simp add: fft_yf_def fft_quarter_turn_def quarter_turn_def Let_def upt_4)

lemma fft_wmax_quarter_turn:
  "fft env = fft_quarter_turn \<Longrightarrow> fft_wmax env quarter_turn = 1"
  by (simp add: fft_wmax_def fft_xf_quarter_turn fft_yf_quarter_turn argmax_def)

lemma upto_0_1: "[0..1::int] = [0, 1]"
  by code_simp

lemma upto_m2_m1: "[- 2..- 1::int] = [- 2, - 1]"
  by code_simp

lemma fftfreq_4: "fftfreq 4 1 = [0, 1 / 4, - 1 / 2, - 1 / 4]"
  by (simp add: fftfreq_def upto_0_1 upto_m2_m1)

lemma fft_omegas_quarter_turn: "fft_omegas grid4 quarter_turn ! Suc 0 = pi / 2"
proof -
  have len: "length quarter_turn = 4" by (simp add: quarter_turn_def)
  have d: "naff_t grid4 ! 1 - naff_t grid4 ! 0 = 1" by (simp add: grid4_def)
  show ?thesis
    unfolding fft_omegas_def len d fftfreq_4 by simp
qed

lemma invtransform_midpoint:
  "invtransform (omin_of naff w) (omax_of naff w) (1 / 2) = w"
  by (simp add: invtransform_def omin_of_def omax_of_def field_simps)

text \<open>
  On the four-point grid, for the series \<open>exp (i (\<pi>/2) t)\<close> and a minimizer that
  converges at the midpoint of the window, \<open>frequency\<close> returns \<open>\<pi>/2\<close>.
\<close>

lemma frequency_env_ok: "frequency env_ok grid4 quarter_turn = Inr (pi / 2)"
proof -
  have f: "fft env_ok = fft_quarter_turn" by (simp add: env_ok_def)
  have g: "fmin_slsqp env_ok = slsqp_converged" by (simp add: env_ok_def)
  have a: "first_attempt env_ok grid4 quarter_turn =
      slsqp_converged (phi_w grid4 quarter_turn (omin_of grid4 (pi / 2)) (omax_of grid4 (pi / 2)))
         (init_w_of grid4 quarter_turn (omin_of grid4 (pi / 2)) (omax_of grid4 (pi / 2))) 50"
    by (simp add: first_attempt_def Let_def fft_wmax_quarter_turn [OF f] g fft_omegas_quarter_turn)
  have l: "\<not> length (naff_t grid4) < 2" by (simp add: grid4_def)
  have x: "fft_xf env_ok quarter_turn ! fft_wmax env_ok quarter_turn \<noteq> 0"
    by (simp add: fft_wmax_quarter_turn [OF f] fft_xf_quarter_turn [OF f])
  show ?thesis
    unfolding frequency_def Let_def
    by (simp add: l a fft_wmax_quarter_turn [OF f] fft_xf_quarter_turn [OF f]
        fft_omegas_quarter_turn slsqp_converged_def invtransform_midpoint)
qed

text \<open>
  With a minimizer that reports "Iteration limit exceeded" on every call, both attempts
  fail on the series \<open>exp (i (\<pi>/2) t)\<close>.
\<close>

lemma frequency_env_fail:
  "frequency env_fail grid4 quarter_turn =
     Inl (ValueError_minimization 9 ''Iteration limit exceeded'')"
proof -
  have f: "fft env_fail = fft_quarter_turn" by (simp add: env_fail_def)
  have l: "\<not> length (naff_t grid4) < 2" by (simp add: grid4_def)
  have a: "slsqp_imode (first_attempt env_fail grid4 quarter_turn) = 9"
    "slsqp_imode (second_attempt env_fail grid4 quarter_turn) = 9"
    "slsqp_smode (second_attempt env_fail grid4 quarter_turn) = ''Iteration limit exceeded''"
    by (simp_all add: first_attempt_def second_attempt_def Let_def env_fail_def slsqp_exhausted_def)
  show ?thesis
    unfolding frequency_def Let_def
    by (simp add: l a fft_wmax_quarter_turn [OF f] fft_xf_quarter_turn [OF f])
qed

text \<open>
  C3. For every series, \<open>frequency\<close> raises the error that carries the solver's status
  and message exactly when the minimizer is called (the grid has two samples and the
  peak of the transform is not degenerate) and reports a nonzero status both on the call
  from the warm start \<open>init_w\<close> with at most 50 iterations and on the call from the
  midpoint \<open>0.5\<close> with at most 100 iterations, on the same objective; the error carries
  the status and the message of the second call. A frequency is returned only when the
  peak is degenerate (the value 0), when the first call reports status 0 (its point,
  de-normalized), or when the first call fails and the second reports status 0 (the
  point of the second call, de-normalized): when both calls fail nothing is returned.
\<close>

theorem frequency_raises_iff:
  "(frequency env naff f = Inl (ValueError_minimization m s) \<longleftrightarrow>
      2 \<le> length (naff_t naff) \<and> fft_xf env f ! fft_wmax env f \<noteq> 0 \<and>
      (let omega0 = fft_omegas naff f ! fft_wmax env f;
           omin = omega0 - pi / naff_T naff;
           omax = omega0 + pi / naff_T naff;
           r1 = fmin_slsqp env (phi_w naff f omin omax) (init_w_of naff f omin omax) 50;
           r2 = fmin_slsqp env (phi_w naff f omin omax) (1 / 2) 100
       in slsqp_imode r1 \<noteq> 0 \<and> slsqp_imode r2 \<noteq> 0 \<and>
          m = slsqp_imode r2 \<and> s = slsqp_smode r2)) \<and>
   (frequency env naff f = Inr v \<longleftrightarrow>
      2 \<le> length (naff_t naff) \<and>
      (if fft_xf env f ! fft_wmax env f = 0 then v = 0
       else
         let omega0 = fft_omegas naff f ! fft_wmax env f;
             omin = omega0 - pi / naff_T naff;
             omax = omega0 + pi / naff_T naff;
             r1 = fmin_slsqp env (phi_w naff f omin omax) (init_w_of naff f omin omax) 50;
             r2 = fmin_slsqp env (phi_w naff f omin omax) (1 / 2) 100
         in if slsqp_imode r1 = 0 then v = slsqp_x r1 * (omax - omin) + omin
            else slsqp_imode r2 = 0 \<and> v = slsqp_x r2 * (omax - omin) + omin))"
  by (auto simp: frequency_def first_attempt_def second_attempt_def omin_of_def omax_of_def
      invtransform_def Let_def)

text \<open>
  On the series \<open>exp (i (\<pi>/2) t)\<close>: with the minimizer that fails on every call
  \<open>frequency\<close> raises the error with its status and message; with the minimizer that
  exhausts 50 iterations and converges within 100, the first call fails, the retry
  converges, and \<open>frequency\<close> returns \<open>\<pi>/2\<close>.
\<close>

theorem frequency_raises_iff_witness:
  "frequency env_fail grid4 quarter_turn =
     Inl (ValueError_minimization 9 ''Iteration limit exceeded'') \<and>
   slsqp_imode (first_attempt env_retry grid4 quarter_turn) = 9 \<and>
   slsqp_imode (second_attempt env_retry grid4 quarter_turn) = 0 \<and>
   frequency env_retry grid4 quarter_turn = Inr (pi / 2)"
proof -
  have f: "fft env_fail = fft_quarter_turn" "fft env_retry = fft_quarter_turn"
    by (simp_all add: env_fail_def env_retry_def)
  have g: "fmin_slsqp env_fail = slsqp_exhausted" "fmin_slsqp env_retry = slsqp_slow"
    by (simp_all add: env_fail_def env_retry_def)
  have l: "2 \<le> length (naff_t grid4)" by (simp add: grid4_def)
  have x: "fft_xf env_fail quarter_turn ! fft_wmax env_fail quarter_turn \<noteq> 0"
    "fft_xf env_retry quarter_turn ! fft_wmax env_retry quarter_turn \<noteq> 0"
    by (simp_all add: fft_wmax_quarter_turn [OF f(1)] fft_xf_quarter_turn [OF f(1)]
        fft_wmax_quarter_turn [OF f(2)] fft_xf_quarter_turn [OF f(2)])
  have w: "fft_omegas grid4 quarter_turn ! fft_wmax env_retry quarter_turn = pi / 2"
    by (simp add: fft_wmax_quarter_turn [OF f(2)] fft_omegas_quarter_turn)
  have a: "frequency env_fail grid4 quarter_turn =
      Inl (ValueError_minimization 9 ''Iteration limit exceeded'')"
    using frequency_raises_iff [of env_fail grid4 quarter_turn 9 "''Iteration limit exceeded''" 0]
      l x(1)
    by (simp add: g Let_def slsqp_exhausted_def)
  have b: "slsqp_imode (first_attempt env_retry grid4 quarter_turn) = 9"
    "slsqp_imode (second_attempt env_retry grid4 quarter_turn) = 0"
    by (simp_all add: first_attempt_def second_attempt_def Let_def g slsqp_slow_def
        slsqp_exhausted_def slsqp_converged_def)
  have c: "frequency env_retry grid4 quarter_turn = Inr (pi / 2)"
    using frequency_raises_iff [of env_retry grid4 quarter_turn 0 "[]" "pi / 2"] l x(2)
    by (simp add: g w Let_def slsqp_slow_def slsqp_exhausted_def slsqp_converged_def
        field_simps)
  from a b c show ?thesis by (intro conjI)
qed

subsection \<open>Selection of the fundamental frequencies\<close>

lemma perm3_cases:
  assumes "remdups (sort [a, b, c :: nat]) = [0, 1, 2]"
  shows "(a = 0 \<and> b = 1 \<and> c = 2) \<or> (a = 0 \<and> b = 2 \<and> c = 1) \<or> (a = 1 \<and> b = 0 \<and> c = 2) \<or>
         (a = 1 \<and> b = 2 \<and> c = 0) \<or> (a = 2 \<and> b = 0 \<and> c = 1) \<or> (a = 2 \<and> b = 1 \<and> c = 0)"
proof -
  have "set (remdups (sort [a, b, c])) = set [0, 1, 2]"
    using assms by (rule arg_cong)
  then have "set [a, b, c] = set [0, 1, 2 :: nat]"
    unfolding set_remdups set_sort .
  then have s: "{a, b, c} = {0, 1, 2}"
    by simp
  then have m: "a \<in> {0, 1, 2}" "b \<in> {0, 1, 2}" "c \<in> {0, 1, 2}"
    by blast+
  have "card {a, b, c} = card {0, 1, 2 :: nat}"
    unfolding s ..
  then have c3: "card {a, b, c} = 3"
    by simp
  have ab: "a \<noteq> b"
  proof
    assume "a = b"
    then have "{a, b, c} = {b, c}" by auto
    then have "card {a, b, c} \<le> 2" by (simp add: card_insert_if)
    with c3 show False by simp
  qed
  have ac: "a \<noteq> c"
  proof
    assume "a = c"
    then have "{a, b, c} = {b, c}" by auto
    then have "card {a, b, c} \<le> 2" by (simp add: card_insert_if)
    with c3 show False by simp
  qed
  have bc: "b \<noteq> c"
  proof
    assume "b = c"
    then have "{a, b, c} = {a, c}" by auto
    then have "card {a, b, c} \<le> 2" by (simp add: card_insert_if)
    with c3 show False by simp
  qed
  from m have "a = 0 \<or> a = 1 \<or> a = 2" "b = 0 \<or> b = 1 \<or> b = 2" "c = 0 \<or> c = 1 \<or> c = 2"
    by simp_all
  with ab ac bc show ?thesis
    by (elim disjE) simp_all
qed

lemma upt_3: "[0..<3] = [0, 1, 2]"
  by code_simp

lemma argsort_perm3:
  "argsort [0, Suc 0, 2 :: nat] = [0, Suc 0, 2]" "argsort [0, 2, Suc 0 :: nat] = [0, 2, Suc 0]"
  "argsort [Suc 0, 0, 2 :: nat] = [Suc 0, 0, 2]" "argsort [Suc 0, 2, 0 :: nat] = [2, 0, Suc 0]"
  "argsort [2, 0, Suc 0 :: nat] = [Suc 0, 2, 0]" "argsort [2, Suc 0, 0 :: nat] = [2, Suc 0, 0]"
  by (simp_all add: argsort_def upt_3)

lemma where_rows_first:
  assumes "where_rows P d \<noteq> []"
  shows "where_rows P d ! 0 < length d \<and> P (d ! (where_rows P d ! 0))"
proof -
  from assms have "where_rows P d ! 0 \<in> set (where_rows P d)"
    by (simp add: hd_conv_nth [symmetric])
  then show ?thesis
    by (simp add: where_rows_def)
qed

lemma select_fundamentals_3_unfold:
  "select_fundamentals 3 d =
     (let w0 = where_rows cond_first d;
          i0 = w0 ! 0; n0 = c_n (d ! i0); f0 = c_freq (d ! i0);
          w1 = where_rows (cond_second n0 f0) d;
          i1 = w1 ! 0; n1 = c_n (d ! i1); f1 = c_freq (d ! i1);
          w2 = where_rows (cond_third n0 n1 f0 f1) d;
          i2 = w2 ! 0; n2 = c_n (d ! i2); f2 = c_freq (d ! i2);
          p = argsort [n0, n1, n2]
      in if w0 = [] then Inl IndexError
         else if w1 = [] then Inl IndexError
         else if w2 = [] then Inl IndexError
         else if remdups (sort [n0, n1, n2]) \<noteq> [0, 1, 2] then Inl ValueError_xyz
         else Inr (map (\<lambda>i. [f0, f1, f2] ! i) p, d, map (\<lambda>i. [i0, i1, i2] ! i) p))"
  by (simp add: select_fundamentals_def Let_def numeral_3_eq_3 del: remdups.simps)

lemma select_fundamentals_3_complete:
  assumes "select_fundamentals 3 d = Inr (ffreq, d', ixes)"
  shows "d' = d \<and> length ffreq = 3 \<and> length ixes = 3 \<and>
         (\<forall>i<3. ixes ! i < length d \<and> c_n (d ! (ixes ! i)) = i \<and>
                 ffreq ! i = c_freq (d ! (ixes ! i)) \<and> cond_first (d ! (ixes ! i)))"
proof -
  define w0 where "w0 = where_rows cond_first d"
  define i0 where "i0 = w0 ! 0"
  define n0 where "n0 = c_n (d ! i0)"
  define f0 where "f0 = c_freq (d ! i0)"
  define w1 where "w1 = where_rows (cond_second n0 f0) d"
  define i1 where "i1 = w1 ! 0"
  define n1 where "n1 = c_n (d ! i1)"
  define f1 where "f1 = c_freq (d ! i1)"
  define w2 where "w2 = where_rows (cond_third n0 n1 f0 f1) d"
  define i2 where "i2 = w2 ! 0"
  define n2 where "n2 = c_n (d ! i2)"
  define f2 where "f2 = c_freq (d ! i2)"
  define p where "p = argsort [n0, n1, n2]"
  note defs = w0_def i0_def n0_def f0_def w1_def i1_def n1_def f1_def w2_def i2_def n2_def f2_def
    p_def
  have u: "select_fundamentals 3 d =
      (if w0 = [] then Inl IndexError
       else if w1 = [] then Inl IndexError
       else if w2 = [] then Inl IndexError
       else if remdups (sort [n0, n1, n2]) \<noteq> [0, 1, 2] then Inl ValueError_xyz
       else Inr (map (\<lambda>i. [f0, f1, f2] ! i) p, d, map (\<lambda>i. [i0, i1, i2] ! i) p))"
    unfolding select_fundamentals_3_unfold Let_def defs ..
  from assms u have ne: "w0 \<noteq> []" "w1 \<noteq> []" "w2 \<noteq> []"
    and chk: "remdups (sort [n0, n1, n2]) = [0, 1, 2]"
    by (auto split: if_splits)
  with assms u have res: "ffreq = map (\<lambda>i. [f0, f1, f2] ! i) p" "d' = d"
    "ixes = map (\<lambda>i. [i0, i1, i2] ! i) p"
    by simp_all
  have b0: "i0 < length d" "cond_first (d ! i0)"
    using where_rows_first [of cond_first d] ne(1) by (simp_all add: w0_def i0_def)
  have b1: "i1 < length d" "cond_second n0 f0 (d ! i1)"
    using where_rows_first [of "cond_second n0 f0" d] ne(2) by (simp_all add: w1_def i1_def)
  have b2: "i2 < length d" "cond_third n0 n1 f0 f1 (d ! i2)"
    using where_rows_first [of "cond_third n0 n1 f0 f1" d] ne(3) by (simp_all add: w2_def i2_def)
  have c: "cond_first (d ! i0)" "cond_first (d ! i1)" "cond_first (d ! i2)"
    using b0 b1 b2 by (simp_all add: cond_first_def cond_second_def cond_third_def)
  have all3: "(\<forall>i<3. Q i) \<longleftrightarrow> Q 0 \<and> Q 1 \<and> Q (2::nat)" for Q
    unfolding numeral_3_eq_3 All_less_Suc by (auto simp: numeral_2_eq_2)
  from perm3_cases [OF chk] show ?thesis
  proof (elim disjE conjE)
    assume "n0 = 0" "n1 = 1" "n2 = 2"
    then have "p = [0, 1, 2]" by (simp add: p_def argsort_perm3)
    with \<open>n0 = 0\<close> \<open>n1 = 1\<close> \<open>n2 = 2\<close> show ?thesis
      using b0 b1 b2 c by (simp add: res all3 n0_def n1_def n2_def f0_def f1_def f2_def)
  next
    assume "n0 = 0" "n1 = 2" "n2 = 1"
    then have "p = [0, 2, 1]" by (simp add: p_def argsort_perm3)
    with \<open>n0 = 0\<close> \<open>n1 = 2\<close> \<open>n2 = 1\<close> show ?thesis
      using b0 b1 b2 c by (simp add: res all3 n0_def n1_def n2_def f0_def f1_def f2_def)
  next
    assume "n0 = 1" "n1 = 0" "n2 = 2"
    then have "p = [1, 0, 2]" by (simp add: p_def argsort_perm3)
    with \<open>n0 = 1\<close> \<open>n1 = 0\<close> \<open>n2 = 2\<close> show ?thesis
      using b0 b1 b2 c by (simp add: res all3 n0_def n1_def n2_def f0_def f1_def f2_def)
  next
    assume "n0 = 1" "n1 = 2" "n2 = 0"
    then have "p = [2, 0, 1]" by (simp add: p_def argsort_perm3)
    with \<open>n0 = 1\<close> \<open>n1 = 2\<close> \<open>n2 = 0\<close> show ?thesis
      using b0 b1 b2 c by (simp add: res all3 n0_def n1_def n2_def f0_def f1_def f2_def)
  next
    assume "n0 = 2" "n1 = 0" "n2 = 1"
    then have "p = [1, 2, 0]" by (simp add: p_def argsort_perm3)
    with \<open>n0 = 2\<close> \<open>n1 = 0\<close> \<open>n2 = 1\<close> show ?thesis
      using b0 b1 b2 c by (simp add: res all3 n0_def n1_def n2_def f0_def f1_def f2_def)
  next
    assume "n0 = 2" "n1 = 1" "n2 = 0"
    then have "p = [2, 1, 0]" by (simp add: p_def argsort_perm3)
    with \<open>n0 = 2\<close> \<open>n1 = 1\<close> \<open>n2 = 0\<close> show ?thesis
      using b0 b1 b2 c by (simp add: res all3 n0_def n1_def n2_def f0_def f1_def f2_def)
  qed
qed

subsection \<open>A run on three tones\<close>

text \<open>
  The whole pipeline on the grid \<open>[0, 1, 2]\<close> for the series \<open>tone2\<close>, \<open>tone0\<close>, \<open>tone1\<close>
  (in this order of dimensions), one component each: the refined frequencies are
  \<open>-\<pi>\<close>, \<open>-\<pi>/3\<close> and \<open>-5\<pi>/3\<close>, the amplitudes \<open>4\<close>, \<open>8/3\<close> and \<open>4/3\<close>.
\<close>

lemma phi_w_grid3: "phi_w grid3 [a0, a1, a2] omin omax w0 = - \<bar>4 * Re a1 / 3\<bar>"
  by (simp add: phi_w_def Let_def grid3_def simps_def)

lemma argmin_const: "argmin (map (\<lambda>x. c) xs) = 0"
proof (cases xs)
  case Nil
  then show ?thesis by (simp add: argmin_def)
next
  case (Cons a list)
  then have "set (map (\<lambda>x. c) xs) = {c}" by auto
  then have "Min (set (map (\<lambda>x. c) xs)) = c" by simp
  then show ?thesis using Cons by (simp add: argmin_def del: set_map)
qed

lemma linspace01_0: "linspace01 50 ! 0 = 0"
  by (simp add: linspace01_def)

lemma init_w_of_grid3:
  assumes "1 / 2 \<le> \<bar>Re a1\<bar>"
  shows "init_w_of grid3 [a0, a1, a2] omin omax = 0"
proof -
  have c: "map (phi_w grid3 [a0, a1, a2] omin omax) (linspace01 50)
      = map (\<lambda>x. - \<bar>4 * Re a1 / 3\<bar>) (linspace01 50)"
    by (simp add: phi_w_grid3)
  have ne: "linspace01 50 \<noteq> []" by (simp add: linspace01_def)
  have "\<not> list_all (\<lambda>v. \<bar>v\<bar> < 1 / 10 ^ 10) (map (\<lambda>x. - \<bar>4 * Re a1 / 3\<bar>) (linspace01 50))"
  proof -
    have "\<not> \<bar>- \<bar>4 * Re a1 / 3\<bar>\<bar> < 1 / 10 ^ 10" using assms by simp
    then show ?thesis using ne by (cases "linspace01 50") simp_all
  qed
  then show ?thesis
    unfolding init_w_of_def Let_def c argmin_const by (simp add: linspace01_0)
qed

lemma frequency_grid3_flat:
  assumes "fmin_slsqp env = slsqp_flat" "1 / 2 \<le> \<bar>Re a1\<bar>"
    "fft_xf env [a0, a1, a2] ! fft_wmax env [a0, a1, a2] \<noteq> 0"
  shows "frequency env grid3 [a0, a1, a2] =
           Inr (fft_omegas grid3 [a0, a1, a2] ! fft_wmax env [a0, a1, a2] - pi)"
proof -
  have l: "\<not> length (naff_t grid3) < 2" by (simp add: grid3_def)
  have T: "naff_T grid3 = 1" by (simp add: grid3_def)
  have a: "slsqp_imode (first_attempt env grid3 [a0, a1, a2]) = 0"
    "slsqp_x (first_attempt env grid3 [a0, a1, a2]) = 0"
    by (simp_all add: first_attempt_def Let_def assms(1) slsqp_flat_def init_w_of_grid3 [OF assms(2)])
  show ?thesis
    unfolding frequency_def Let_def
    by (simp add: l assms(3) a invtransform_def omin_of_def T)
qed

lemma upto_m1_m1: "[- 1..- 1::int] = [- 1]"
  by code_simp

lemma fft_omegas_grid3:
  "fft_omegas grid3 [a0, a1, a2] = [0, 2 * pi / 3, - (2 * pi / 3)]"
  by (simp add: fft_omegas_def fftfreq_def grid3_def upto_0_1 upto_m1_m1)

lemma fft_tones_values:
  "fft_tones tone0 = [9, 0, 0]" "fft_tones tone1 = [0, 6, 0]" "fft_tones tone2 = [0, 0, 3]"
  by (simp_all add: fft_tones_def tone0_def tone1_def tone2_def)

lemma fft_xf_tones:
  "fft_xf env_tones tone0 = [9 / (sqrt 2 * sqrt 3), 0, 0]"
  "fft_xf env_tones tone1 = [0, - 6 / (sqrt 2 * sqrt 3), 0]"
  "fft_xf env_tones tone2 = [0, 0, 3 / (sqrt 2 * sqrt 3)]"
proof -
  have l: "length tone0 = 3" "length tone1 = 3" "length tone2 = 3"
    by (simp_all add: tone0_def tone1_def tone2_def)
  have f: "fft env_tones = fft_tones" by (simp add: env_tones_def)
  show "fft_xf env_tones tone0 = [9 / (sqrt 2 * sqrt 3), 0, 0]"
    unfolding fft_xf_def Let_def f fft_tones_values l upt_3 by simp
  show "fft_xf env_tones tone1 = [0, - 6 / (sqrt 2 * sqrt 3), 0]"
    unfolding fft_xf_def Let_def f fft_tones_values l upt_3 by simp
  show "fft_xf env_tones tone2 = [0, 0, 3 / (sqrt 2 * sqrt 3)]"
    unfolding fft_xf_def Let_def f fft_tones_values l upt_3 by simp
qed

lemma fft_yf_tones:
  "fft_yf env_tones tone0 = [0, 0, 0]"
  "fft_yf env_tones tone1 = [0, 0, 0]"
  "fft_yf env_tones tone2 = [0, 0, 0]"
proof -
  have l: "length tone0 = 3" "length tone1 = 3" "length tone2 = 3"
    by (simp_all add: tone0_def tone1_def tone2_def)
  have f: "fft env_tones = fft_tones" by (simp add: env_tones_def)
  show "fft_yf env_tones tone0 = [0, 0, 0]"
    unfolding fft_yf_def Let_def f fft_tones_values l upt_3 by simp
  show "fft_yf env_tones tone1 = [0, 0, 0]"
    unfolding fft_yf_def Let_def f fft_tones_values l upt_3 by simp
  show "fft_yf env_tones tone2 = [0, 0, 0]"
    unfolding fft_yf_def Let_def f fft_tones_values l upt_3 by simp
qed

lemma fft_wmax_tones:
  "fft_wmax env_tones tone0 = 0" "fft_wmax env_tones tone1 = Suc 0" "fft_wmax env_tones tone2 = 2"
  by (simp_all add: fft_wmax_def fft_xf_tones fft_yf_tones argmax_def)

lemma Re_tones: "Re (2 * w3) = - 1" "Re (cnj w3) = - 1 / 2" "Re w3 = - 1 / 2"
  by (simp_all add: w3_def)

lemma frequency_tones:
  "frequency env_tones grid3 tone0 = Inr (- pi)"
  "frequency env_tones grid3 tone1 = Inr (- (pi / 3))"
  "frequency env_tones grid3 tone2 = Inr (- (5 * pi / 3))"
proof -
  have g: "fmin_slsqp env_tones = slsqp_flat" by (simp add: env_tones_def)
  have x0: "fft_xf env_tones [3, 3, 3] ! fft_wmax env_tones [3, 3, 3] \<noteq> 0"
    using fft_xf_tones(1) fft_wmax_tones(1) by (simp add: tone0_def)
  have x1: "fft_xf env_tones [2, 2 * w3, 2 * cnj w3] ! fft_wmax env_tones [2, 2 * w3, 2 * cnj w3] \<noteq> 0"
    using fft_xf_tones(2) fft_wmax_tones(2) by (simp add: tone1_def)
  have x2: "fft_xf env_tones [1, cnj w3, w3] ! fft_wmax env_tones [1, cnj w3, w3] \<noteq> 0"
    using fft_xf_tones(3) fft_wmax_tones(3) by (simp add: tone2_def)
  show "frequency env_tones grid3 tone0 = Inr (- pi)"
    using frequency_grid3_flat [OF g _ x0] fft_wmax_tones(1)
    by (simp add: tone0_def fft_omegas_grid3)
  show "frequency env_tones grid3 tone1 = Inr (- (pi / 3))"
    using frequency_grid3_flat [OF g _ x1] fft_wmax_tones(2)
    by (simp add: tone1_def fft_omegas_grid3 Re_tones)
  show "frequency env_tones grid3 tone2 = Inr (- (5 * pi / 3))"
    using frequency_grid3_flat [OF g _ x2] fft_wmax_tones(3)
    by (simp add: tone2_def fft_omegas_grid3 Re_tones)
qed

lemma frecoder_one:
  assumes "frequency env naff f = Inr v"
  shows "frecoder env naff f (Suc 0) bc =
           Inr ([- v], [cmod (hanning_product naff f (exp_series naff v))],
                [Arg (hanning_product naff f (exp_series naff v))])"
  using assms
  by (simp add: frecoder_def frecoder_run_def frecoder_init_def frecoder_body_def Let_def
      split: prod.splits)

lemma cmod_w3: "cmod w3 = 1"
  by (simp add: w3_def cmod_def power_divide)

lemma exp_series_grid3:
  "exp_series grid3 v = [1, exp (\<i> * complex_of_real v), exp (\<i> * complex_of_real v * 2)]"
  by (simp add: exp_series_def grid3_def)

lemma amplitude_grid3:
  "cmod (hanning_product grid3 [a0, a1, a2] (exp_series grid3 v)) = 4 * cmod a1 / 3"
  unfolding exp_series_grid3 hanning_product_grid3
  by (simp add: norm_mult norm_divide)

lemma amplitude_tones:
  "cmod (hanning_product grid3 tone0 (exp_series grid3 v)) = 4"
  "cmod (hanning_product grid3 tone1 (exp_series grid3 v)) = 8 / 3"
  "cmod (hanning_product grid3 tone2 (exp_series grid3 v)) = 4 / 3"
  by (simp_all add: tone0_def tone1_def tone2_def amplitude_grid3 norm_mult cmod_w3)

lemma pi_bounds: "1 / 10 ^ 5 < pi" "1 / 10 ^ 6 < 2 * pi / 3" "1 / 10 ^ 6 < 4 * pi / 3"
  using pi_ge_two by simp_all

lemma select_three_rows:
  assumes "c_freq r0 = - pi" "c_freq r1 = - (pi / 3)" "c_freq r2 = - (5 * pi / 3)"
    and "c_n r0 = Suc 0" "c_n r1 = 2" "c_n r2 = 0"
  shows "select_fundamentals 3 [r0, r1, r2] =
           Inr ([- (5 * pi / 3), - pi, - (pi / 3)], [r0, r1, r2], [2, 0, Suc 0])"
proof -
  have c0: "cond_first r0" "cond_first r1" "cond_first r2"
    using pi_ge_two by (simp_all add: cond_first_def assms)
  have c1: "\<not> cond_second (Suc 0) (- pi) r0" "cond_second (Suc 0) (- pi) r1" "cond_second (Suc 0) (- pi) r2"
    using pi_ge_two by (simp_all add: cond_second_def assms)
  have c2: "\<not> cond_third (Suc 0) 2 (- pi) (- (pi / 3)) r0" "\<not> cond_third (Suc 0) 2 (- pi) (- (pi / 3)) r1"
    "cond_third (Suc 0) 2 (- pi) (- (pi / 3)) r2"
    using pi_ge_two by (simp_all add: cond_third_def assms)
  have w0: "where_rows cond_first [r0, r1, r2] = [0, 1, 2]"
    by (simp add: where_rows_def upt_3 c0)
  have w1: "where_rows (cond_second (Suc 0) (- pi)) [r0, r1, r2] = [1, 2]"
    by (simp add: where_rows_def upt_3 c1)
  have w2: "where_rows (cond_third (Suc 0) 2 (- pi) (- (pi / 3))) [r0, r1, r2] = [2]"
    by (simp add: where_rows_def upt_3 c2)
  have p: "argsort [Suc 0, 2, 0 :: nat] = [2, 0, Suc 0]"
    by (simp add: argsort_def upt_3)
  have s: "remdups (sort [Suc 0, 2, 0 :: nat]) = [0, Suc 0, 2]"
    by simp
  show ?thesis
    unfolding select_fundamentals_3_unfold Let_def w0
    by (simp add: assms w1 w2 p s del: remdups.simps)
qed

lemma table_rows_one:
  "table_rows ([v], [a], [p]) i =
     [\<lparr>c_freq = - v, c_A = complex_of_real a * exp (\<i> * complex_of_real p), c_absA = a,
        c_phi = p, c_n = i\<rparr>]"
  by (simp add: table_rows_def)

lemma argsort_amplitudes: "argsort [4 / 3, 4, 8 / 3 :: real] = [0, 2, 1]"
  by (simp add: argsort_def upt_3)

lemma tones_table:
  "\<exists>r0 r1 r2. component_table env_tones grid3 [tone2, tone0, tone1] (Suc 0) bc = Inr [r0, r1, r2] \<and>
     c_freq r0 = - pi \<and> c_freq r1 = - (pi / 3) \<and> c_freq r2 = - (5 * pi / 3) \<and>
     c_n r0 = Suc 0 \<and> c_n r1 = 2 \<and> c_n r2 = 0"
  by (simp add: component_table_def frecoder_one [OF frequency_tones(1)]
      frecoder_one [OF frequency_tones(2)] frecoder_one [OF frequency_tones(3)]
      table_rows_one amplitude_tones sort_by_amplitude_def argsort_amplitudes)

lemma tones_fundamentals:
  "\<exists>d. find_fundamental_frequencies env_tones grid3 [tone2, tone0, tone1] (Suc 0) bc =
          Inr ([- (5 * pi / 3), - pi, - (pi / 3)], d, [2, 0, Suc 0]) \<and>
        map c_freq d = [- pi, - (pi / 3), - (5 * pi / 3)] \<and> map c_n d = [Suc 0, 2, 0]"
proof -
  from tones_table [of bc] obtain r0 r1 r2 where
    t: "component_table env_tones grid3 [tone2, tone0, tone1] (Suc 0) bc = Inr [r0, r1, r2]"
    and f: "c_freq r0 = - pi" "c_freq r1 = - (pi / 3)" "c_freq r2 = - (5 * pi / 3)"
    and n: "c_n r0 = Suc 0" "c_n r1 = 2" "c_n r2 = 0"
    by blast
  have l: "length [tone2, tone0, tone1] = 3" by simp
  have "find_fundamental_frequencies env_tones grid3 [tone2, tone0, tone1] (Suc 0) bc =
      Inr ([- (5 * pi / 3), - pi, - (pi / 3)], [r0, r1, r2], [2, 0, Suc 0])"
    unfolding find_fundamental_frequencies_def t l sum.case select_three_rows [OF f n] ..
  with f n show ?thesis by simp
qed

subsection \<open>Three fundamentals cover the three dimensions\<close>

text \<open>
  C5. For three input series (\<open>ndim = 3\<close>): whenever \<open>find_fundamental_frequencies\<close>
  returns normally, its table is the sorted table of components, all three entries are
  assigned, entry \<open>i\<close> is the frequency of a row of the table that comes from dimension \<open>i\<close>
  (so the three rows cover the dimensions 0, 1, 2 exactly, one each) and has a nonzero
  frequency. Whenever one of the three filters leaves no candidate the function raises
  \<open>IndexError\<close>, whenever the three chosen rows do not cover the dimensions 0, 1, 2 it
  raises \<open>ValueError\<close>, and an exception of the extraction is propagated: no partial set
  is returned.
\<close>

theorem find_fundamental_frequencies_xyz:
  assumes "length fs = 3"
  shows "(find_fundamental_frequencies env naff fs nintvec bc = Inr (ffreq, d, ixes) \<longrightarrow>
            component_table env naff fs nintvec bc = Inr d \<and>
            length ffreq = 3 \<and> length ixes = 3 \<and>
            (\<forall>i<3. ixes ! i < length d \<and> c_n (d ! (ixes ! i)) = i \<and>
                    ffreq ! i = c_freq (d ! (ixes ! i)) \<and> cond_first (d ! (ixes ! i)))) \<and>
         (component_table env naff fs nintvec bc = Inr d \<longrightarrow>
            (let w0 = where_rows cond_first d;
                 i0 = w0 ! 0; n0 = c_n (d ! i0); f0 = c_freq (d ! i0);
                 w1 = where_rows (cond_second n0 f0) d;
                 i1 = w1 ! 0; n1 = c_n (d ! i1); f1 = c_freq (d ! i1);
                 w2 = where_rows (cond_third n0 n1 f0 f1) d;
                 n2 = c_n (d ! (w2 ! 0))
             in (w0 = [] \<or> w1 = [] \<or> w2 = [] \<longrightarrow>
                   find_fundamental_frequencies env naff fs nintvec bc = Inl IndexError) \<and>
                (w0 \<noteq> [] \<and> w1 \<noteq> [] \<and> w2 \<noteq> [] \<and> remdups (sort [n0, n1, n2]) \<noteq> [0, 1, 2] \<longrightarrow>
                   find_fundamental_frequencies env naff fs nintvec bc = Inl ValueError_xyz))) \<and>
         (component_table env naff fs nintvec bc = Inl e \<longrightarrow>
            find_fundamental_frequencies env naff fs nintvec bc = Inl e)"
proof (intro conjI impI)
  assume r: "find_fundamental_frequencies env naff fs nintvec bc = Inr (ffreq, d, ixes)"
  then obtain d0 where t: "component_table env naff fs nintvec bc = Inr d0"
    and s: "select_fundamentals 3 d0 = Inr (ffreq, d, ixes)"
    using assms by (auto simp: find_fundamental_frequencies_def split: sum.splits)
  from select_fundamentals_3_complete [OF s] t
  show "component_table env naff fs nintvec bc = Inr d" "length ffreq = 3" "length ixes = 3"
    "\<forall>i<3. ixes ! i < length d \<and> c_n (d ! (ixes ! i)) = i \<and>
            ffreq ! i = c_freq (d ! (ixes ! i)) \<and> cond_first (d ! (ixes ! i))"
    by simp_all
next
  assume t: "component_table env naff fs nintvec bc = Inr d"
  have "find_fundamental_frequencies env naff fs nintvec bc = select_fundamentals 3 d"
    using assms by (simp add: find_fundamental_frequencies_def t)
  then show "let w0 = where_rows cond_first d;
                 i0 = w0 ! 0; n0 = c_n (d ! i0); f0 = c_freq (d ! i0);
                 w1 = where_rows (cond_second n0 f0) d;
                 i1 = w1 ! 0; n1 = c_n (d ! i1); f1 = c_freq (d ! i1);
                 w2 = where_rows (cond_third n0 n1 f0 f1) d;
                 n2 = c_n (d ! (w2 ! 0))
             in (w0 = [] \<or> w1 = [] \<or> w2 = [] \<longrightarrow>
                   find_fundamental_frequencies env naff fs nintvec bc = Inl IndexError) \<and>
                (w0 \<noteq> [] \<and> w1 \<noteq> [] \<and> w2 \<noteq> [] \<and> remdups (sort [n0, n1, n2]) \<noteq> [0, 1, 2] \<longrightarrow>
                   find_fundamental_frequencies env naff fs nintvec bc = Inl ValueError_xyz)"
    by (simp add: select_fundamentals_3_unfold Let_def del: remdups.simps sort_key_simps)
next
  assume "component_table env naff fs nintvec bc = Inl e"
  then show "find_fundamental_frequencies env naff fs nintvec bc = Inl e"
    by (simp add: find_fundamental_frequencies_def)
qed

text \<open>
  On the three tones the function returns normally: the table is sorted by amplitude
  (dimensions 1, 2, 0), the rows 2, 0, 1 are chosen for the dimensions 0, 1, 2, and the
  fundamentals are \<open>-5\<pi>/3\<close>, \<open>-\<pi>\<close>, \<open>-\<pi>/3\<close>.
\<close>

theorem find_fundamental_frequencies_xyz_witness:
  "\<exists>d. find_fundamental_frequencies env_tones grid3 [tone2, tone0, tone1] (Suc 0) (Some (1 / 10 ^ 7)) =
          Inr ([- (5 * pi / 3), - pi, - (pi / 3)], d, [2, 0, Suc 0]) \<and>
        component_table env_tones grid3 [tone2, tone0, tone1] (Suc 0) (Some (1 / 10 ^ 7)) = Inr d \<and>
        map c_n d = [Suc 0, 2, 0] \<and>
        length [- (5 * pi / 3), - pi, - (pi / 3)] = 3 \<and> length [2, 0, Suc 0] = 3 \<and>
        (\<forall>i<3. [2, 0, Suc 0] ! i < length d \<and> c_n (d ! ([2, 0, Suc 0] ! i)) = i \<and>
                [- (5 * pi / 3), - pi, - (pi / 3)] ! i = c_freq (d ! ([2, 0, Suc 0] ! i)) \<and>
                cond_first (d ! ([2, 0, Suc 0] ! i)))"
proof -
  from tones_fundamentals [of "Some (1 / 10 ^ 7)"] obtain d where
    r: "find_fundamental_frequencies env_tones grid3 [tone2, tone0, tone1] (Suc 0) (Some (1 / 10 ^ 7)) =
          Inr ([- (5 * pi / 3), - pi, - (pi / 3)], d, [2, 0, Suc 0])"
    and n: "map c_n d = [Suc 0, 2, 0]"
    by (elim exE conjE)
  have l: "length [tone2, tone0, tone1] = 3" by simp
  note th = find_fundamental_frequencies_xyz [OF l, of env_tones grid3 "Suc 0" "Some (1 / 10 ^ 7)"
      "[- (5 * pi / 3), - pi, - (pi / 3)]" d "[2, 0, Suc 0]"]
  from th have "find_fundamental_frequencies env_tones grid3 [tone2, tone0, tone1] (Suc 0)
        (Some (1 / 10 ^ 7)) = Inr ([- (5 * pi / 3), - pi, - (pi / 3)], d, [2, 0, Suc 0]) \<longrightarrow>
      component_table env_tones grid3 [tone2, tone0, tone1] (Suc 0) (Some (1 / 10 ^ 7)) = Inr d \<and>
      length [- (5 * pi / 3), - pi, - (pi / 3)] = 3 \<and> length [2, 0, Suc 0] = 3 \<and>
      (\<forall>i<3. [2, 0, Suc 0] ! i < length d \<and> c_n (d ! ([2, 0, Suc 0] ! i)) = i \<and>
              [- (5 * pi / 3), - pi, - (pi / 3)] ! i = c_freq (d ! ([2, 0, Suc 0] ! i)) \<and>
              cond_first (d ! ([2, 0, Suc 0] ! i)))"
    by (rule conjunct1)
  from this r have c: "component_table env_tones grid3 [tone2, tone0, tone1] (Suc 0) (Some (1 / 10 ^ 7)) = Inr d \<and>
      length [- (5 * pi / 3), - pi, - (pi / 3)] = 3 \<and> length [2, 0, Suc 0] = 3 \<and>
      (\<forall>i<3. [2, 0, Suc 0] ! i < length d \<and> c_n (d ! ([2, 0, Suc 0] ! i)) = i \<and>
              [- (5 * pi / 3), - pi, - (pi / 3)] ! i = c_freq (d ! ([2, 0, Suc 0] ! i)) \<and>
              cond_first (d ! ([2, 0, Suc 0] ! i)))"
    by (rule mp)
  note c1 = c [THEN conjunct1]
  note c2 = c [THEN conjunct2]
  show ?thesis
  proof (rule exI [of _ d], rule conjI [OF r], rule conjI [OF c1], rule conjI [OF n])
    show "length [- (5 * pi / 3), - pi, - (pi / 3)] = 3 \<and> length [2, 0, Suc 0] = 3 \<and>
      (\<forall>i<3. [2, 0, Suc 0] ! i < length d \<and> c_n (d ! ([2, 0, Suc 0] ! i)) = i \<and>
              [- (5 * pi / 3), - pi, - (pi / 3)] ! i = c_freq (d ! ([2, 0, Suc 0] ! i)) \<and>
              cond_first (d ! ([2, 0, Suc 0] ! i)))"
      by (rule c2)
  qed
qed

subsection \<open>The extraction loop\<close>

lemma frequency_errors:
  "frequency env naff f = Inl e \<Longrightarrow> e = IndexError \<or> (\<exists>m s. e = ValueError_minimization m s)"
  by (auto simp: frequency_def Let_def split: if_splits)

lemma frecoder_body_Inl:
  "frecoder_body env naff k st = Inl e \<Longrightarrow> frequency env naff (st_fk st) = Inl e"
  by (auto simp: frecoder_body_def Let_def split: sum.splits prod.splits)

lemma frecoder_body_Inr:
  assumes "frecoder_body env naff k st = Inr st'"
  shows "length (st_nu st') = length (st_nu st)" "length (st_A st') = length (st_A st)"
    "length (st_phi st') = length (st_phi st)" "length (st_ecap st') = length (st_ecap st)"
    "\<exists>fmax. st_fmax st' = st_fmax st @ [fmax]"
    "j \<noteq> k \<Longrightarrow> st_A st' ! j = st_A st ! j"
  using assms
  by (auto simp: frecoder_body_def Let_def split: sum.splits prod.splits)


lemma frecoder_loop_frame:
  assumes "frecoder_loop env naff bc ks kvar st = Inr (kv, st')"
  shows "length (st_nu st') = length (st_nu st) \<and> length (st_A st') = length (st_A st) \<and>
         length (st_phi st') = length (st_phi st) \<and>
         (\<exists>log. st_fmax st' = st_fmax st @ log) \<and>
         (\<forall>j. j \<notin> set ks \<longrightarrow> st_A st' ! j = st_A st ! j)"
  using assms
proof (induction ks arbitrary: kvar st)
  case Nil
  then show ?case by simp
next
  case (Cons k ks)
  from Cons.prems obtain st1 where b: "frecoder_body env naff k st = Inr st1"
    by (cases "frecoder_body env naff k st") simp_all
  note f = frecoder_body_Inr [OF b]
  show ?case
  proof (cases "break_now bc k st1")
    case True
    with Cons.prems b have "st' = st1" by simp
    with f show ?thesis by auto
  next
    case False
    with Cons.prems b have l: "frecoder_loop env naff bc ks (Some k) st1 = Inr (kv, st')"
      by simp
    from Cons.IH [OF l] f show ?thesis by auto
  qed
qed


lemma frecoder_loop_trace:
  assumes "frecoder_loop env naff bc ks kvar st = Inr (kv, st')" "distinct ks" "ks \<noteq> []"
  shows "\<exists>m<length ks. kv = Some (ks ! m) \<and>
           length (st_fmax st') = length (st_fmax st) + m + 1 \<and>
           (\<forall>i<m. \<forall>eps. bc = Some eps \<longrightarrow>
              eps \<le> st_fmax st' ! (length (st_fmax st) + i) \<and> eps \<le> st_A st' ! (ks ! i))"
  using assms
proof (induction ks arbitrary: kvar st)
  case Nil
  then show ?case by simp
next
  case (Cons k ks)
  from Cons.prems(1) obtain st1 where b: "frecoder_body env naff k st = Inr st1"
    by (cases "frecoder_body env naff k st") simp_all
  from frecoder_body_Inr(5) [OF b] obtain fmax where fm: "st_fmax st1 = st_fmax st @ [fmax]"
    by blast
  have stop: ?case if "kv = Some k" "st' = st1"
    using that fm by (intro exI [of _ 0]) simp
  show ?case
  proof (cases "break_now bc k st1")
    case True
    with Cons.prems(1) b have "kv = Some k" "st' = st1" by simp_all
    then show ?thesis by (rule stop)
  next
    case False
    with Cons.prems(1) b have l: "frecoder_loop env naff bc ks (Some k) st1 = Inr (kv, st')"
      by simp
    show ?thesis
    proof (cases "ks = []")
      case True
      with l have "kv = Some k" "st' = st1" by simp_all
      then show ?thesis by (rule stop)
    next
      case ne: False
      from Cons.prems(2) have d: "distinct ks" and k: "k \<notin> set ks" by simp_all
      from Cons.IH [OF l d ne] obtain m where m: "m < length ks" "kv = Some (ks ! m)"
        "length (st_fmax st') = length (st_fmax st1) + m + 1"
        and tr: "\<forall>i<m. \<forall>eps. bc = Some eps \<longrightarrow>
              eps \<le> st_fmax st' ! (length (st_fmax st1) + i) \<and> eps \<le> st_A st' ! (ks ! i)"
        by blast
      from frecoder_loop_frame [OF l] k obtain log where
        lg: "st_fmax st' = st_fmax st1 @ log" and a: "st_A st' ! k = st_A st1 ! k"
        by blast
      have first: "eps \<le> st_fmax st' ! length (st_fmax st) \<and> eps \<le> st_A st' ! k"
        if "bc = Some eps" for eps
      proof -
        from False that have "eps \<le> last (st_fmax st1)" "eps \<le> st_A st1 ! k"
          by (simp_all add: break_now_def not_less)
        moreover have "st_fmax st' ! length (st_fmax st) = last (st_fmax st1)"
          by (simp add: lg fm nth_append)
        ultimately show ?thesis using a by simp
      qed
      have "\<forall>i<Suc m. \<forall>eps. bc = Some eps \<longrightarrow>
              eps \<le> st_fmax st' ! (length (st_fmax st) + i) \<and> eps \<le> st_A st' ! ((k # ks) ! i)"
      proof (intro allI impI)
        fix i eps assume i: "i < Suc m" and e: "bc = Some eps"
        show "eps \<le> st_fmax st' ! (length (st_fmax st) + i) \<and> eps \<le> st_A st' ! ((k # ks) ! i)"
        proof (cases i)
          case 0
          with first [OF e] show ?thesis by simp
        next
          case (Suc i')
          with i have "i' < m" by simp
          with tr e have "eps \<le> st_fmax st' ! (length (st_fmax st1) + i') \<and> eps \<le> st_A st' ! (ks ! i')"
            by blast
          then show ?thesis using Suc fm by simp
        qed
      qed
      with m fm show ?thesis
        by (intro exI [of _ "Suc m"]) simp
    qed
  qed
qed

lemma frecoder_init_fields:
  "st_fmax (frecoder_init naff f nintvec) = []"
  "length (st_nu (frecoder_init naff f nintvec)) = nintvec"
  "length (st_A (frecoder_init naff f nintvec)) = nintvec"
  "length (st_phi (frecoder_init naff f nintvec)) = nintvec"
  by (simp_all add: frecoder_init_def)

lemma frecoder_run_trace:
  assumes "frecoder_run env naff f nintvec bc = Inr (kv, st)" "1 \<le> nintvec"
  shows "\<exists>k<nintvec. kv = Some k \<and> length (st_fmax st) = k + 1 \<and>
           length (st_nu st) = nintvec \<and> length (st_A st) = nintvec \<and>
           length (st_phi st) = nintvec \<and>
           (\<forall>i<k. \<forall>eps. bc = Some eps \<longrightarrow> eps \<le> st_fmax st ! i \<and> eps \<le> st_A st ! i)"
proof -
  let ?st0 = "frecoder_init naff f nintvec"
  have l: "frecoder_loop env naff bc [0..<nintvec] None ?st0 = Inr (kv, st)"
    using assms(1) by (simp add: frecoder_run_def)
  have ne: "[0..<nintvec] \<noteq> []" using assms(2) by simp
  from frecoder_loop_trace [OF l distinct_upt ne] obtain m where
    m: "m < nintvec" "kv = Some ([0..<nintvec] ! m)" "length (st_fmax st) = m + 1"
    and tr: "\<forall>i<m. \<forall>eps. bc = Some eps \<longrightarrow>
              eps \<le> st_fmax st ! i \<and> eps \<le> st_A st ! ([0..<nintvec] ! i)"
    by (auto simp: frecoder_init_fields)
  from frecoder_loop_frame [OF l] have len: "length (st_nu st) = nintvec"
    "length (st_A st) = nintvec" "length (st_phi st) = nintvec"
    by (simp_all add: frecoder_init_fields)
  have "\<forall>i<m. \<forall>eps. bc = Some eps \<longrightarrow> eps \<le> st_fmax st ! i \<and> eps \<le> st_A st ! i"
  proof (intro allI impI)
    fix i eps assume i: "i < m" and e: "bc = Some eps"
    with tr have "eps \<le> st_fmax st ! i \<and> eps \<le> st_A st ! ([0..<nintvec] ! i)" by blast
    moreover from i m(1) have "[0..<nintvec] ! i = i" by simp
    ultimately show "eps \<le> st_fmax st ! i \<and> eps \<le> st_A st ! i" by simp
  qed
  with m len show ?thesis by (intro exI [of _ m]) simp
qed


text \<open>
  C4. For a run with \<open>nintvec \<ge> 1\<close> and break threshold \<open>eps\<close> that does not fail in the
  frequency refinement: the loop performs \<open>k + 1\<close> iterations with \<open>k < nintvec\<close> (the log
  \<open>st_fmax\<close> has one entry per iteration, so at most \<open>nintvec\<close>), and after every iteration
  \<open>i\<close> that was followed by another one both the residual peak amplitude \<open>fmax\<close> and the
  extracted amplitude \<open>A[i]\<close> were at least \<open>eps\<close>. In particular, when \<open>eps\<close> exceeds the
  residual peak amplitude or the amplitude of the first iteration, the loop stops after
  exactly one iteration, and \<open>frecoder\<close> returns exactly \<open>k + 1\<close> components.
\<close>

theorem frecoder_stopping_rule:
  assumes "1 \<le> nintvec"
    and "frecoder_run env naff f nintvec (Some eps) = Inr (kv, st)"
  shows "\<exists>k<nintvec. kv = Some k \<and> length (st_fmax st) = k + 1 \<and>
           (\<forall>i<k. eps \<le> st_fmax st ! i \<and> eps \<le> st_A st ! i) \<and>
           ((st_fmax st ! 0 < eps \<or> st_A st ! 0 < eps) \<longrightarrow> k = 0) \<and>
           frecoder env naff f nintvec (Some eps) =
             Inr (map uminus (take (k + 1) (st_nu st)), take (k + 1) (st_A st),
                  take (k + 1) (st_phi st)) \<and>
           length (take (k + 1) (st_nu st)) = k + 1 \<and>
           length (take (k + 1) (st_A st)) = k + 1 \<and>
           length (take (k + 1) (st_phi st)) = k + 1"
proof -
  from frecoder_run_trace [OF assms(2,1)] obtain k where k: "k < nintvec" "kv = Some k"
    "length (st_fmax st) = k + 1"
    and len: "length (st_nu st) = nintvec" "length (st_A st) = nintvec"
    "length (st_phi st) = nintvec"
    and tr: "\<forall>i<k. eps \<le> st_fmax st ! i \<and> eps \<le> st_A st ! i"
    by blast
  have one: "k = 0" if "st_fmax st ! 0 < eps \<or> st_A st ! 0 < eps"
  proof (rule ccontr)
    assume "k \<noteq> 0"
    then have "0 < k" by simp
    with tr have "eps \<le> st_fmax st ! 0 \<and> eps \<le> st_A st ! 0" by blast
    with that show False by auto
  qed
  have r: "frecoder env naff f nintvec (Some eps) =
             Inr (map uminus (take (k + 1) (st_nu st)), take (k + 1) (st_A st),
                  take (k + 1) (st_phi st))"
    by (simp add: frecoder_def assms(2) k(2))
  from k(1) len have tl: "length (take (k + 1) (st_nu st)) = k + 1"
    "length (take (k + 1) (st_A st)) = k + 1" "length (take (k + 1) (st_phi st)) = k + 1"
    by simp_all
  from k tr one r tl show ?thesis
    by (intro exI [of _ k]) simp
qed

subsection \<open>Runs on the zero series\<close>

text \<open>
  On the grid \<open>[0, 1, 2]\<close> the zero series has a zero transform: \<open>frequency\<close> returns the
  degenerate frequency 0, the amplitude and the residual are zero.
\<close>

lemma frequency_zero: "frequency env_zero grid3 [0, 0, 0] = Inr 0"
proof -
  have x: "fft_xf env_zero [0, 0, 0] = [0, 0, 0]"
    by (simp add: fft_xf_def env_zero_def fft_zero_def Let_def upt_3)
  have y: "fft_yf env_zero [0, 0, 0] = [0, 0, 0]"
    by (simp add: fft_yf_def env_zero_def fft_zero_def Let_def upt_3)
  have w: "fft_wmax env_zero [0, 0, 0] = 0"
    by (simp add: fft_wmax_def x y argmax_def)
  show ?thesis
    by (simp add: frequency_def x w grid3_def)
qed

lemma list_of_length_3: "length xs = 3 \<Longrightarrow> \<exists>a b c. xs = [a, b, c]"
  by (auto simp: numeral_3_eq_3 length_Suc_conv)

lemma length_gso: "length (gso naff ecap nu k) = length (naff_t naff)"
  by (simp add: gso_def Let_def length_gso_residual)

lemma sub_chi_zero: "sub_chi [0, 0, 0] [b0, b1, b2] 0 = ([0, 0, 0], 0)"
  by (simp add: sub_chi_def)

lemma frecoder_body_zero:
  assumes "st_fk st = [0, 0, 0]" "k < length (st_ecap st)"
  shows "\<exists>st'. frecoder_body env_zero grid3 k st = Inr st' \<and> st_fk st' = [0, 0, 0] \<and>
           st_nu st' = (st_nu st)[k := 0] \<and> st_A st' = (st_A st)[k := 0] \<and>
           st_phi st' = (st_phi st)[k := 0] \<and> st_fmax st' = st_fmax st @ [0] \<and>
           length (st_ecap st') = length (st_ecap st)"
proof -
  define e where "e = (if k = 0 then exp_series grid3 ((st_nu st)[k := 0] ! k)
                       else gso grid3 (st_ecap st) ((st_nu st)[k := 0] ! k) k)"
  have "length e = 3"
    by (simp add: e_def length_gso exp_series_def grid3_def)
  then obtain b0 b1 b2 where e: "e = [b0, b1, b2]"
    using list_of_length_3 by blast
  have nth: "(st_ecap st)[k := e] ! k = e"
    using assms(2) by simp
  have hp: "hanning_product grid3 [0, 0, 0] e = 0"
    unfolding e hanning_product_grid3 by simp
  show ?thesis
    unfolding frecoder_body_def assms(1) frequency_zero sum.case Let_def e_def [symmetric] nth hp
    by (simp add: e sub_chi_zero Arg_zero)
qed


lemma upt_2: "[0..<2] = [0, Suc 0]"
  by code_simp

lemma frecoder_init_zero:
  "st_fk (frecoder_init grid3 [0, 0, 0] 2) = [0, 0, 0]"
  "length (st_ecap (frecoder_init grid3 [0, 0, 0] 2)) = 2"
  "st_nu (frecoder_init grid3 [0, 0, 0] 2) = [0, 0]"
  "st_A (frecoder_init grid3 [0, 0, 0] 2) = [0, 0]"
  "st_phi (frecoder_init grid3 [0, 0, 0] 2) = [0, 0]"
  "st_fmax (frecoder_init grid3 [0, 0, 0] 2) = []"
  by (simp_all add: frecoder_init_def numeral_2_eq_2)

lemma frecoder_run_zero_break:
  "\<exists>st. frecoder_run env_zero grid3 [0, 0, 0] 2 (Some (1 / 10 ^ 7)) = Inr (Some 0, st) \<and>
     st_nu st = [0, 0] \<and> st_A st = [0, 0] \<and> st_phi st = [0, 0] \<and> st_fmax st = [0]"
proof -
  let ?st0 = "frecoder_init grid3 [0, 0, 0] 2"
  from frecoder_body_zero [of ?st0 0] obtain st1 where
    b: "frecoder_body env_zero grid3 0 ?st0 = Inr st1"
    and f: "st_nu st1 = [0, 0]" "st_A st1 = [0, 0]" "st_phi st1 = [0, 0]" "st_fmax st1 = [0]"
    by (auto simp: frecoder_init_zero)
  have br: "break_now (Some (1 / 10 ^ 7)) 0 st1"
    by (simp add: break_now_def f)
  have "frecoder_run env_zero grid3 [0, 0, 0] 2 (Some (1 / 10 ^ 7)) = Inr (Some 0, st1)"
    using br by (simp add: frecoder_run_def upt_2 b)
  with f show ?thesis by blast
qed

lemma frecoder_run_zero_two:
  "\<exists>st. frecoder_run env_zero grid3 [0, 0, 0] 2 (Some 0) = Inr (Some (Suc 0), st) \<and>
     st_nu st = [0, 0] \<and> st_A st = [0, 0] \<and> st_phi st = [0, 0] \<and> st_fmax st = [0, 0]"
proof -
  let ?st0 = "frecoder_init grid3 [0, 0, 0] 2"
  from frecoder_body_zero [of ?st0 0] obtain st1 where
    b1: "frecoder_body env_zero grid3 0 ?st0 = Inr st1"
    and f1: "st_fk st1 = [0, 0, 0]" "length (st_ecap st1) = 2"
    "st_nu st1 = [0, 0]" "st_A st1 = [0, 0]" "st_phi st1 = [0, 0]" "st_fmax st1 = [0]"
    by (auto simp: frecoder_init_zero)
  from frecoder_body_zero [of st1 "Suc 0"] obtain st2 where
    b2: "frecoder_body env_zero grid3 (Suc 0) st1 = Inr st2"
    and f2: "st_nu st2 = [0, 0]" "st_A st2 = [0, 0]" "st_phi st2 = [0, 0]" "st_fmax st2 = [0, 0]"
    by (auto simp: f1)
  have br: "\<not> break_now (Some 0) 0 st1" "\<not> break_now (Some 0) (Suc 0) st2"
    by (simp_all add: break_now_def f1 f2)
  have "frecoder_run env_zero grid3 [0, 0, 0] 2 (Some 0) = Inr (Some (Suc 0), st2)"
    by (simp add: frecoder_run_def upt_2 b1 b2 br)
  with f2 show ?thesis by blast
qed


text \<open>
  With \<open>nintvec = 2\<close> and threshold 0 nothing is below the threshold and the loop runs twice;
  with the default threshold \<open>1E-7\<close> the residual peak amplitude of the first iteration is
  below it and exactly one component is returned.
\<close>

theorem frecoder_stopping_rule_witness:
  "(\<exists>st. frecoder_run env_zero grid3 [0, 0, 0] 2 (Some 0) = Inr (Some (Suc 0), st) \<and>
      length (st_fmax st) = 2 \<and> 0 \<le> st_fmax st ! 0 \<and> 0 \<le> st_A st ! 0) \<and>
   frecoder env_zero grid3 [0, 0, 0] 2 (Some 0) = Inr ([0, 0], [0, 0], [0, 0]) \<and>
   (\<exists>st. frecoder_run env_zero grid3 [0, 0, 0] 2 (Some (1 / 10 ^ 7)) = Inr (Some 0, st) \<and>
      length (st_fmax st) = 1 \<and> st_fmax st ! 0 < 1 / 10 ^ 7) \<and>
   frecoder env_zero grid3 [0, 0, 0] 2 (Some (1 / 10 ^ 7)) = Inr ([0], [0], [0])"
proof -
  have n: "1 \<le> (2::nat)" by simp
  from frecoder_run_zero_two obtain st where
    r: "frecoder_run env_zero grid3 [0, 0, 0] 2 (Some 0) = Inr (Some (Suc 0), st)"
    and f: "st_nu st = [0, 0]" "st_A st = [0, 0]" "st_phi st = [0, 0]" "st_fmax st = [0, 0]"
    by (elim exE conjE)
  from frecoder_stopping_rule [OF n r] obtain k where k: "Some (Suc 0) = Some k"
    and t: "\<forall>i<k. 0 \<le> st_fmax st ! i \<and> 0 \<le> st_A st ! i"
    and e: "frecoder env_zero grid3 [0, 0, 0] 2 (Some 0) =
      Inr (map uminus (take (k + 1) (st_nu st)), take (k + 1) (st_A st), take (k + 1) (st_phi st))"
    by (elim exE conjE)
  from k have k1: "k = Suc 0" by simp
  from t k1 have t0: "0 \<le> st_fmax st ! 0 \<and> 0 \<le> st_A st ! 0" by simp
  have a: "\<exists>st. frecoder_run env_zero grid3 [0, 0, 0] 2 (Some 0) = Inr (Some (Suc 0), st) \<and>
      length (st_fmax st) = 2 \<and> 0 \<le> st_fmax st ! 0 \<and> 0 \<le> st_A st ! 0"
    using r t0 f(4) by (intro exI [of _ st]) simp
  have b: "frecoder env_zero grid3 [0, 0, 0] 2 (Some 0) = Inr ([0, 0], [0, 0], [0, 0])"
    using e by (simp add: k1 f)
  from frecoder_run_zero_break obtain st' where
    r': "frecoder_run env_zero grid3 [0, 0, 0] 2 (Some (1 / 10 ^ 7)) = Inr (Some 0, st')"
    and f': "st_nu st' = [0, 0]" "st_A st' = [0, 0]" "st_phi st' = [0, 0]" "st_fmax st' = [0]"
    by (elim exE conjE)
  from frecoder_stopping_rule [OF n r'] obtain k' where k': "Some 0 = Some k'"
    and e': "frecoder env_zero grid3 [0, 0, 0] 2 (Some (1 / 10 ^ 7)) =
      Inr (map uminus (take (k' + 1) (st_nu st')), take (k' + 1) (st_A st'),
           take (k' + 1) (st_phi st'))"
    by (elim exE conjE)
  from k' have k0: "k' = 0" by simp
  have c: "\<exists>st. frecoder_run env_zero grid3 [0, 0, 0] 2 (Some (1 / 10 ^ 7)) = Inr (Some 0, st) \<and>
      length (st_fmax st) = 1 \<and> st_fmax st ! 0 < 1 / 10 ^ 7"
    using r' f'(4) by (intro exI [of _ st']) simp
  have d: "frecoder env_zero grid3 [0, 0, 0] 2 (Some (1 / 10 ^ 7)) = Inr ([0], [0], [0])"
    using e' by (simp add: k0 f')
  from a b c d show ?thesis by (intro conjI)
qed

subsection \<open>The first basis vector\<close>

lemma simps_zeros: "simps (map (\<lambda>z. 0) ys) x = 0"
proof -
  have e: "map uminus (map (\<lambda>z. 0 :: real) ys) = map (\<lambda>z. 0) ys" by simp
  from simps_uminus [of "map (\<lambda>z. 0) ys" x]
  have "simps (map (\<lambda>z. 0) ys) x = - simps (map (\<lambda>z. 0) ys) x"
    unfolding e .
  then show ?thesis by simp
qed

lemma exp_series_unit: "z \<in> set (exp_series naff v) \<Longrightarrow> z * cnj z = 1"
proof -
  assume "z \<in> set (exp_series naff v)"
  then obtain x where "z = exp (\<i> * complex_of_real v * complex_of_real x)"
    by (auto simp: exp_series_def)
  then have "z = cis (v * x)" by (simp add: cis_conv_exp mult.assoc)
  then show ?thesis by (simp add: cis_cnj cis_mult)
qed

lemma hanning_integrand_exp_series:
  assumes "length (naff_chi naff) = length (naff_t naff)"
  shows "hanning_integrand naff (exp_series naff v) (exp_series naff v)
           = map complex_of_real (naff_chi naff)"
proof (rule nth_equalityI)
  show "length (hanning_integrand naff (exp_series naff v) (exp_series naff v))
          = length (map complex_of_real (naff_chi naff))"
    using assms by (simp add: hanning_integrand_def exp_series_def)
next
  fix i assume "i < length (hanning_integrand naff (exp_series naff v) (exp_series naff v))"
  then have i: "i < length (exp_series naff v)" "i < length (naff_chi naff)"
    by (simp_all add: hanning_integrand_def)
  then have "exp_series naff v ! i * cnj (exp_series naff v ! i) = 1"
    by (intro exp_series_unit [of _ naff v]) simp
  with i show "hanning_integrand naff (exp_series naff v) (exp_series naff v) ! i
          = map complex_of_real (naff_chi naff) ! i"
    by (simp add: hanning_integrand_def)
qed

lemma hanning_product_exp_series:
  assumes "length (naff_chi naff) = length (naff_t naff)"
  shows "hanning_product naff (exp_series naff v) (exp_series naff v)
           = complex_of_real (simps (naff_chi naff) (naff_tz naff) / (2 * naff_T naff))"
proof (rule complex_eqI)
  have r: "map Re (map complex_of_real (naff_chi naff)) = naff_chi naff"
    by (simp add: map_idI)
  have i: "map Im (map complex_of_real (naff_chi naff)) = map (\<lambda>z. 0) (naff_chi naff)"
    by simp
  show "Re (hanning_product naff (exp_series naff v) (exp_series naff v)) =
      Re (complex_of_real (simps (naff_chi naff) (naff_tz naff) / (2 * naff_T naff)))"
    unfolding hanning_product_Re_Im hanning_integrand_exp_series [OF assms] r by simp
  show "Im (hanning_product naff (exp_series naff v) (exp_series naff v)) =
      Im (complex_of_real (simps (naff_chi naff) (naff_tz naff) / (2 * naff_T naff)))"
    unfolding hanning_product_Re_Im hanning_integrand_exp_series [OF assms] i simps_zeros by simp
qed


text \<open>
  C2, as the code has it. At step \<open>k = 0\<close> the basis vector is the raw exponential
  \<open>exp (i \<nu> t)\<close> of the refined frequency \<open>\<nu>\<close>: the branch \<open>k == 0\<close> skips the projection
  and the normalization alike. On a constructed grid its weighted self inner product is
  the integral of the window divided by \<open>2 T\<close>, \<open>simps(chi, tz) / (2 T)\<close>, the same for
  every frequency and every series.
\<close>

theorem first_basis_vector_raw:
  assumes "frecoder_body env naff 0 st = Inr st'"
    and "0 < length (st_ecap st)" "0 < length (st_nu st)"
    and "length (naff_chi naff) = length (naff_t naff)"
  shows "frequency env naff (st_fk st) = Inr (st_nu st' ! 0) \<and>
         st_ecap st' ! 0 = exp_series naff (st_nu st' ! 0) \<and>
         hanning_product naff (st_ecap st' ! 0) (st_ecap st' ! 0) =
           complex_of_real (simps (naff_chi naff) (naff_tz naff) / (2 * naff_T naff))"
proof -
  from assms(1) obtain v where v: "frequency env naff (st_fk st) = Inr v"
    by (cases "frequency env naff (st_fk st)") (simp_all add: frecoder_body_def)
  from assms(1,2,3) have "st_nu st' ! 0 = v" "st_ecap st' ! 0 = exp_series naff v"
    by (auto simp: frecoder_body_def v Let_def split: prod.splits)
  with v hanning_product_exp_series [OF assms(4), of v] show ?thesis by simp
qed


lemma self_product_grid3:
  "hanning_product grid3 (exp_series grid3 v) (exp_series grid3 v) = 4 / 3"
proof -
  have l: "length (naff_chi grid3) = length (naff_t grid3)" by (simp add: grid3_def)
  have "simps (naff_chi grid3) (naff_tz grid3) / (2 * naff_T grid3) = 4 / 3"
    by (simp add: grid3_def simps_def)
  with hanning_product_exp_series [OF l, of v] show ?thesis by simp
qed

lemma self_product_grid5:
  "hanning_product grid5 (exp_series grid5 v) (exp_series grid5 v) = 1"
proof -
  have l: "length (naff_chi grid5) = length (naff_t grid5)" by (simp add: grid5_def)
  have "simps (naff_chi grid5) (naff_tz grid5) / (2 * naff_T grid5) = 1"
    by (simp add: grid5_def simps_def)
  with hanning_product_exp_series [OF l, of v] show ?thesis by simp
qed

lemma frecoder_body_tone0:
  "\<exists>st'. frecoder_body env_tones grid3 0 (frecoder_init grid3 tone0 1) = Inr st' \<and>
     st_ecap st' ! 0 = exp_series grid3 (- pi)"
  by (simp add: frecoder_body_def frequency_tones frecoder_init_def Let_def split: prod.splits)

lemma gso_first_grid3:
  "hanning_product grid3 (gso grid3 [] v 0) (gso grid3 [] v 0) = 1"
proof -
  have r: "gso_residual grid3 [] v 0 = exp_series grid3 v"
    by (simp add: gso_residual_def Let_def exp_series_grid3 upt_3)
  have n: "gso_norm (4 / 3) = 1 / complex_of_real (sqrt (4 / 3))"
    by (simp add: gso_norm_def Let_def)
  have g: "gso grid3 [] v 0 = map (\<lambda>z. z * (1 / complex_of_real (sqrt (4 / 3)))) (exp_series grid3 v)"
    unfolding gso_def Let_def r self_product_grid3 n ..
  have s: "complex_of_real (sqrt (4 / 3)) * complex_of_real (sqrt (4 / 3)) = 4 / 3"
    by (simp add: of_real_mult [symmetric] del: of_real_mult)
  have u: "exp (\<i> * complex_of_real v) * cnj (exp (\<i> * complex_of_real v)) = 1"
    using exp_series_unit [of "exp (\<i> * complex_of_real v)" grid3 v]
    by (simp add: exp_series_grid3)
  show ?thesis
    unfolding g exp_series_grid3 list.map hanning_product_grid3
    using s u by (simp add: field_simps)
qed


text \<open>
  The hypotheses hold for the first pass on the constant tone on the grid \<open>[0, 1, 2]\<close>;
  there the self inner product of the first basis vector is \<open>4/3\<close>. (On the five-point
  grid it is 1, see \<open>self_product_grid5\<close>.)
\<close>

theorem first_basis_vector_raw_witness:
  "\<exists>st'. frecoder_body env_tones grid3 0 (frecoder_init grid3 tone0 1) = Inr st' \<and>
     frequency env_tones grid3 tone0 = Inr (st_nu st' ! 0) \<and>
     st_ecap st' ! 0 = exp_series grid3 (st_nu st' ! 0) \<and>
     hanning_product grid3 (st_ecap st' ! 0) (st_ecap st' ! 0) = 4 / 3"
proof -
  from frecoder_body_tone0 obtain st' where
    b: "frecoder_body env_tones grid3 0 (frecoder_init grid3 tone0 1) = Inr st'"
    by (elim exE conjE)
  have h: "0 < length (st_ecap (frecoder_init grid3 tone0 1))"
    "0 < length (st_nu (frecoder_init grid3 tone0 1))"
    "length (naff_chi grid3) = length (naff_t grid3)"
    by (simp_all add: frecoder_init_def grid3_def)
  have v: "simps (naff_chi grid3) (naff_tz grid3) / (2 * naff_T grid3) = 4 / 3"
    by (simp add: grid3_def simps_def)
  have f: "st_fk (frecoder_init grid3 tone0 1) = tone0"
    by (simp add: frecoder_init_def)
  have c: "complex_of_real (4 / 3) = 4 / 3" by simp
  note t = first_basis_vector_raw [OF b h, unfolded v f c]
  show ?thesis
    by (rule exI [of _ st'], rule conjI [OF b], rule t)
qed

text \<open>
  C2 fails as stated: on the grid \<open>[0, 1, 2]\<close> the first pass on the constant tone succeeds,
  its basis vector is the raw exponential of the frequency \<open>-\<pi>\<close>, whose weighted self
  inner product is \<open>4/3\<close>, not 1; the Gram-Schmidt step with no earlier vector
  (\<open>gso\<close> with \<open>k = 0\<close>) would have normalized it to self inner product 1.
\<close>

theorem first_basis_vector_not_normalized:
  "\<not> isl (frecoder_body env_tones grid3 0 (frecoder_init grid3 tone0 1)) \<and>
   st_ecap (projr (frecoder_body env_tones grid3 0 (frecoder_init grid3 tone0 1))) ! 0
     = exp_series grid3 (- pi) \<and>
   hanning_product grid3 (exp_series grid3 (- pi)) (exp_series grid3 (- pi)) = 4 / 3 \<and>
   hanning_product grid3 (gso grid3 [] (- pi) 0) (gso grid3 [] (- pi) 0) = 1"
proof -
  from frecoder_body_tone0 obtain st' where
    b: "frecoder_body env_tones grid3 0 (frecoder_init grid3 tone0 1) = Inr st'"
    and e: "st_ecap st' ! 0 = exp_series grid3 (- pi)"
    by (elim exE conjE)
  show ?thesis
    unfolding b by (simp add: e self_product_grid3 gso_first_grid3)
qed

subsection \<open>The recorded frequencies\<close>

lemma frecoder_body_nu:
  assumes "frecoder_body env naff k st = Inr st'"
  shows "\<exists>v. frequency env naff (st_fk st) = Inr v \<and> st_nu st' = (st_nu st)[k := v]"
  using assms
  by (cases "frequency env naff (st_fk st)")
    (auto simp: frecoder_body_def Let_def split: prod.splits)

lemma frecoder_loop_nu_frame:
  assumes "frecoder_loop env naff bc ks kvar st = Inr (kv, st')" "j \<notin> set ks"
  shows "st_nu st' ! j = st_nu st ! j"
  using assms
proof (induction ks arbitrary: kvar st)
  case Nil
  then show ?case by simp
next
  case (Cons k ks)
  from Cons.prems(1) obtain st1 where b: "frecoder_body env naff k st = Inr st1"
    by (cases "frecoder_body env naff k st") simp_all
  from frecoder_body_nu [OF b] Cons.prems(2) have f: "st_nu st1 ! j = st_nu st ! j"
    by auto
  show ?case
  proof (cases "break_now bc k st1")
    case True
    with Cons.prems(1) b have "st' = st1" by simp
    with f show ?thesis by simp
  next
    case False
    with Cons.prems(1) b have l: "frecoder_loop env naff bc ks (Some k) st1 = Inr (kv, st')"
      by simp
    from Cons.IH [OF l] Cons.prems(2) f show ?thesis by simp
  qed
qed

lemma frecoder_loop_steps:
  assumes "frecoder_loop env naff bc ks kvar st = Inr (kv, st')" "distinct ks"
    "\<forall>k\<in>set ks. k < length (st_nu st)" "ks \<noteq> []"
  shows "\<exists>m<length ks. kv = Some (ks ! m) \<and>
           (\<forall>i\<le>m. \<exists>kvi sti.
              frecoder_loop env naff bc (take i ks) kvar st = Inr (kvi, sti) \<and>
              length (st_fmax sti) = length (st_fmax st) + i \<and>
              frequency env naff (st_fk sti) = Inr (st_nu st' ! (ks ! i)))"
  using assms
proof (induction ks arbitrary: kvar st)
  case Nil
  then show ?case by simp
next
  case (Cons k ks)
  from Cons.prems(1) obtain st1 where b: "frecoder_body env naff k st = Inr st1"
    by (cases "frecoder_body env naff k st") simp_all
  from frecoder_body_nu [OF b] obtain v where v: "frequency env naff (st_fk st) = Inr v"
    and nu1: "st_nu st1 = (st_nu st)[k := v]"
    by blast
  from frecoder_body_Inr(5) [OF b] obtain fmax where fm: "st_fmax st1 = st_fmax st @ [fmax]"
    by blast
  from Cons.prems(3) have kl: "k < length (st_nu st)" by simp
  with nu1 have nk: "st_nu st1 ! k = v" by simp
  from Cons.prems(2) have d: "distinct ks" and k: "k \<notin> set ks" by simp_all
  have zero: "\<exists>kvi sti.
              frecoder_loop env naff bc (take 0 (k # ks)) kvar st = Inr (kvi, sti) \<and>
              length (st_fmax sti) = length (st_fmax st) + 0 \<and>
              frequency env naff (st_fk sti) = Inr (st_nu st' ! ((k # ks) ! 0))"
    if "st_nu st' ! k = v"
    using that v by (intro exI [of _ kvar] exI [of _ st]) simp
  have stop: ?case if "kv = Some k" "st' = st1"
  proof (intro exI [of _ 0] conjI allI impI)
    show "0 < length (k # ks)" by simp
    show "kv = Some ((k # ks) ! 0)" using that by simp
    fix i assume "i \<le> (0::nat)"
    then have i: "i = 0" by simp
    from that nk have "st_nu st' ! k = v" by simp
    from zero [OF this] show "\<exists>kvi sti.
              frecoder_loop env naff bc (take i (k # ks)) kvar st = Inr (kvi, sti) \<and>
              length (st_fmax sti) = length (st_fmax st) + i \<and>
              frequency env naff (st_fk sti) = Inr (st_nu st' ! ((k # ks) ! i))"
      unfolding i .
  qed
  show ?case
  proof (cases "break_now bc k st1")
    case True
    with Cons.prems(1) b have "kv = Some k" "st' = st1" by simp_all
    then show ?thesis by (rule stop)
  next
    case False
    with Cons.prems(1) b have l: "frecoder_loop env naff bc ks (Some k) st1 = Inr (kv, st')"
      by simp
    show ?thesis
    proof (cases "ks = []")
      case True
      with l have "kv = Some k" "st' = st1" by simp_all
      then show ?thesis by (rule stop)
    next
      case ne: False
      have b3: "\<forall>k\<in>set ks. k < length (st_nu st1)"
        using Cons.prems(3) nu1 by simp
      from Cons.IH [OF l d b3 ne] obtain m where m: "m < length ks" "kv = Some (ks ! m)"
        and fr: "\<forall>i\<le>m. \<exists>kvi sti.
              frecoder_loop env naff bc (take i ks) (Some k) st1 = Inr (kvi, sti) \<and>
              length (st_fmax sti) = length (st_fmax st1) + i \<and>
              frequency env naff (st_fk sti) = Inr (st_nu st' ! (ks ! i))"
        by blast
      from frecoder_loop_nu_frame [OF l k] nk have first: "st_nu st' ! k = v" by simp
      have "\<forall>i\<le>Suc m. \<exists>kvi sti.
              frecoder_loop env naff bc (take i (k # ks)) kvar st = Inr (kvi, sti) \<and>
              length (st_fmax sti) = length (st_fmax st) + i \<and>
              frequency env naff (st_fk sti) = Inr (st_nu st' ! ((k # ks) ! i))"
      proof (intro allI impI)
        fix i assume i: "i \<le> Suc m"
        show "\<exists>kvi sti.
              frecoder_loop env naff bc (take i (k # ks)) kvar st = Inr (kvi, sti) \<and>
              length (st_fmax sti) = length (st_fmax st) + i \<and>
              frequency env naff (st_fk sti) = Inr (st_nu st' ! ((k # ks) ! i))"
        proof (cases i)
          case 0
          from zero [OF first] show ?thesis unfolding 0 .
        next
          case (Suc i')
          with i have "i' \<le> m" by simp
          with fr obtain kvi sti where
            s: "frecoder_loop env naff bc (take i' ks) (Some k) st1 = Inr (kvi, sti)"
            "length (st_fmax sti) = length (st_fmax st1) + i'"
            "frequency env naff (st_fk sti) = Inr (st_nu st' ! (ks ! i'))"
            by blast
          have "frecoder_loop env naff bc (take i (k # ks)) kvar st = Inr (kvi, sti)"
            using s(1) b False by (simp add: Suc)
          with s(2,3) fm show ?thesis
            by (intro exI [of _ kvi] exI [of _ sti]) (simp add: Suc)
        qed
      qed
      with m show ?thesis
        by (intro exI [of _ "Suc m"]) simp
    qed
  qed
qed

lemma frecoder_loop_raises:
  assumes "frecoder_loop env naff bc ks kvar st = Inl e"
  shows "\<exists>i<length ks. \<exists>kvi sti.
           frecoder_loop env naff bc (take i ks) kvar st = Inr (kvi, sti) \<and>
           length (st_fmax sti) = length (st_fmax st) + i \<and>
           frequency env naff (st_fk sti) = Inl e"
  using assms
proof (induction ks arbitrary: kvar st)
  case Nil
  then show ?case by simp
next
  case (Cons k ks)
  show ?case
  proof (cases "frecoder_body env naff k st")
    case (Inl e')
    with Cons.prems have "e' = e" by simp
    with Inl have "frequency env naff (st_fk st) = Inl e" by (simp add: frecoder_body_Inl)
    then show ?thesis
      by (intro exI [of _ 0] conjI exI [of _ kvar] exI [of _ st]) simp_all
  next
    case (Inr st1)
    from frecoder_body_Inr(5) [OF Inr] obtain fmax where fm: "st_fmax st1 = st_fmax st @ [fmax]"
      by blast
    from Inr Cons.prems have nb: "\<not> break_now bc k st1"
      and l: "frecoder_loop env naff bc ks (Some k) st1 = Inl e"
      by (simp_all split: if_splits)
    from Cons.IH [OF l] obtain i kvi sti where i: "i < length ks"
      and s: "frecoder_loop env naff bc (take i ks) (Some k) st1 = Inr (kvi, sti)"
      "length (st_fmax sti) = length (st_fmax st1) + i"
      "frequency env naff (st_fk sti) = Inl e"
      by blast
    have "frecoder_loop env naff bc (take (Suc i) (k # ks)) kvar st = Inr (kvi, sti)"
      using s(1) Inr nb by simp
    with i s(2,3) fm show ?thesis
      by (intro exI [of _ "Suc i"] conjI exI [of _ kvi] exI [of _ sti]) simp_all
  qed
qed

lemma frecoder_raises:
  assumes "frecoder env naff f nintvec bc = Inl e" "1 \<le> nintvec"
  shows "\<exists>k<nintvec. \<exists>kv st.
           frecoder_loop env naff bc [0..<k] None (frecoder_init naff f nintvec) = Inr (kv, st) \<and>
           length (st_fmax st) = k \<and> frequency env naff (st_fk st) = Inl e"
proof (cases "frecoder_run env naff f nintvec bc")
  case (Inl e')
  with assms(1) have "e' = e" by (simp add: frecoder_def)
  with Inl have "frecoder_loop env naff bc [0..<nintvec] None (frecoder_init naff f nintvec) = Inl e"
    by (simp add: frecoder_run_def)
  from frecoder_loop_raises [OF this] obtain i kvi sti where i: "i < nintvec"
    and s: "frecoder_loop env naff bc (take i [0..<nintvec]) None (frecoder_init naff f nintvec) =
              Inr (kvi, sti)"
    "length (st_fmax sti) = length (st_fmax (frecoder_init naff f nintvec)) + i"
    "frequency env naff (st_fk sti) = Inl e"
    by auto
  from i have t: "take i [0..<nintvec] = [0..<i]" by (simp add: take_upt)
  from i s show ?thesis
    unfolding t frecoder_init_fields
    by (intro exI [of _ i] conjI exI [of _ kvi] exI [of _ sti]) simp_all
next
  case (Inr r)
  obtain kv st where r: "r = (kv, st)" by (cases r)
  from frecoder_run_trace [OF Inr [unfolded r] assms(2)] obtain k where "kv = Some k" by blast
  with Inr r assms(1) show ?thesis by (simp add: frecoder_def)
qed

lemma frecoder_first_raises:
  assumes "frequency env naff f = Inl e" "1 \<le> nintvec"
  shows "frecoder env naff f nintvec bc = Inl e"
proof -
  from assms(2) obtain n where n: "nintvec = Suc n" by (cases nintvec) simp_all
  have u: "[0..<Suc n] = 0 # [Suc 0..<Suc n]" by (simp add: upt_conv_Cons)
  have "st_fk (frecoder_init naff f nintvec) = f" by (simp add: frecoder_init_def)
  with assms(1) have "frecoder_body env naff 0 (frecoder_init naff f nintvec) = Inl e"
    by (simp add: frecoder_body_def)
  then show ?thesis
    unfolding frecoder_def frecoder_run_def n u by simp
qed


subsection \<open>The extraction returns a component or raises\<close>

lemma frecoder_env_fail:
  "frecoder env_fail grid4 quarter_turn (Suc 0) bc =
     Inl (ValueError_minimization 9 ''Iteration limit exceeded'')"
  by (simp add: frecoder_def frecoder_run_def frecoder_init_def frecoder_body_def
      frequency_env_fail)

text \<open>
  C10. For \<open>nintvec = 0\<close> the call fails with \<open>UnboundLocalError\<close> at the return statement
  (the loop variable was never bound). For \<open>nintvec \<ge> 1\<close> the call need not return: the
  first statement of the loop body calls \<open>frequency\<close>, and when \<open>frequency\<close> raises on the
  input series, \<open>frecoder\<close> raises the same exception before any component is recorded.
  Every exception of \<open>frecoder\<close> is one that \<open>frequency\<close> raised at some step \<open>k\<close>, on
  the residual series after \<open>k\<close> completed iterations, and never \<open>UnboundLocalError\<close>.
  Whenever \<open>frecoder\<close> returns, its sequences have between 1 and \<open>nintvec\<close> entries and
  equal lengths (the break condition is tested at the end of the body, after the component
  is recorded, and the degenerate frequency 0 is a result of \<open>frequency\<close> like any other);
  and it does return when \<open>frequency\<close> raises on no series.
\<close>

theorem frecoder_at_least_one:
  "frecoder env naff f 0 bc = Inl UnboundLocalError \<and>
   (1 \<le> nintvec \<longrightarrow>
      (\<forall>e. frequency env naff f = Inl e \<longrightarrow> frecoder env naff f nintvec bc = Inl e) \<and>
      (\<forall>e. frecoder env naff f nintvec bc = Inl e \<longrightarrow>
         e \<noteq> UnboundLocalError \<and>
         (\<exists>k<nintvec. \<exists>kv st.
            frecoder_loop env naff bc [0..<k] None (frecoder_init naff f nintvec) = Inr (kv, st) \<and>
            length (st_fmax st) = k \<and> frequency env naff (st_fk st) = Inl e)) \<and>
      (\<forall>nu A phi. frecoder env naff f nintvec bc = Inr (nu, A, phi) \<longrightarrow>
         1 \<le> length nu \<and> length nu \<le> nintvec \<and> length A = length nu \<and>
         length phi = length nu) \<and>
      ((\<forall>g. \<exists>v. frequency env naff g = Inr v) \<longrightarrow>
         (\<exists>nu A phi. frecoder env naff f nintvec bc = Inr (nu, A, phi))))"
proof (intro conjI impI allI)
  show "frecoder env naff f 0 bc = Inl UnboundLocalError"
    by (simp add: frecoder_def frecoder_run_def)
next
  fix e assume "1 \<le> nintvec" "frequency env naff f = Inl e"
  then show "frecoder env naff f nintvec bc = Inl e"
    by (rule frecoder_first_raises [rotated])
next
  fix e assume n: "1 \<le> nintvec" and e: "frecoder env naff f nintvec bc = Inl e"
  from frecoder_raises [OF e n]
  show "\<exists>k<nintvec. \<exists>kv st.
            frecoder_loop env naff bc [0..<k] None (frecoder_init naff f nintvec) = Inr (kv, st) \<and>
            length (st_fmax st) = k \<and> frequency env naff (st_fk st) = Inl e" .
  then obtain g where "frequency env naff g = Inl e" by blast
  from frequency_errors [OF this] show "e \<noteq> UnboundLocalError" by auto
next
  fix nu A phi
  assume n: "1 \<le> nintvec" and r: "frecoder env naff f nintvec bc = Inr (nu, A, phi)"
  from r obtain kv st where run: "frecoder_run env naff f nintvec bc = Inr (kv, st)"
    by (cases "frecoder_run env naff f nintvec bc") (auto simp: frecoder_def)
  from frecoder_run_trace [OF run n] obtain k where k: "k < nintvec" "kv = Some k"
    and len: "length (st_nu st) = nintvec" "length (st_A st) = nintvec"
    "length (st_phi st) = nintvec"
    by blast
  from r run k(2) have "nu = map uminus (take (k + 1) (st_nu st))" "A = take (k + 1) (st_A st)"
    "phi = take (k + 1) (st_phi st)"
    by (simp_all add: frecoder_def)
  with k(1) len show "1 \<le> length nu" "length nu \<le> nintvec" "length A = length nu"
    "length phi = length nu"
    by simp_all
next
  assume n: "1 \<le> nintvec" and t: "\<forall>g. \<exists>v. frequency env naff g = Inr v"
  show "\<exists>nu A phi. frecoder env naff f nintvec bc = Inr (nu, A, phi)"
  proof (cases "frecoder env naff f nintvec bc")
    case (Inl e)
    from frecoder_raises [OF Inl n] obtain g where "frequency env naff g = Inl e" by blast
    with t show ?thesis by (metis sum.distinct(1))
  next
    case (Inr r)
    then show ?thesis by (cases r) auto
  qed
qed

text \<open>
  On the zero series the peak finder returns the degenerate frequency 0 and the break
  condition holds in the first iteration: with \<open>nintvec = 2\<close> one component is returned,
  with \<open>nintvec = 0\<close> the call fails. With the minimizer that fails on every call,
  \<open>frequency\<close> raises on the quarter turn and so does \<open>frecoder\<close>.
\<close>

theorem frecoder_at_least_one_witness:
  "frecoder env_zero grid3 [0, 0, 0] 0 (Some (1 / 10 ^ 7)) = Inl UnboundLocalError \<and>
   frecoder env_zero grid3 [0, 0, 0] 2 (Some (1 / 10 ^ 7)) = Inr ([0], [0], [0]) \<and>
   1 \<le> length [0 :: real] \<and> length [0 :: real] \<le> 2 \<and>
   frequency env_fail grid4 quarter_turn =
     Inl (ValueError_minimization 9 ''Iteration limit exceeded'') \<and>
   frecoder env_fail grid4 quarter_turn 2 (Some (1 / 10 ^ 7)) =
     Inl (ValueError_minimization 9 ''Iteration limit exceeded'')"
proof -
  from frecoder_run_zero_break obtain st' where
    r': "frecoder_run env_zero grid3 [0, 0, 0] 2 (Some (1 / 10 ^ 7)) = Inr (Some 0, st')"
    and f': "st_nu st' = [0, 0]" "st_A st' = [0, 0]" "st_phi st' = [0, 0]" "st_fmax st' = [0]"
    by (elim exE conjE)
  have d: "frecoder env_zero grid3 [0, 0, 0] 2 (Some (1 / 10 ^ 7)) = Inr ([0], [0], [0])"
    using r' by (simp add: frecoder_def f')
  have n: "1 \<le> (2::nat)" by simp
  note th = frecoder_at_least_one [of env_zero grid3 "[0, 0, 0]" "Some (1 / 10 ^ 7)" 2]
  from th have u: "frecoder env_zero grid3 [0, 0, 0] 0 (Some (1 / 10 ^ 7)) = Inl UnboundLocalError"
    by (rule conjunct1)
  from th [THEN conjunct2, THEN mp, OF n]
  have "\<forall>nu A phi. frecoder env_zero grid3 [0, 0, 0] 2 (Some (1 / 10 ^ 7)) = Inr (nu, A, phi) \<longrightarrow>
         1 \<le> length nu \<and> length nu \<le> 2 \<and> length A = length nu \<and> length phi = length nu"
    by (elim conjE)
  with d have le: "1 \<le> length [0 :: real] \<and> length [0 :: real] \<le> 2"
    by blast
  note th2 = frecoder_at_least_one [of env_fail grid4 quarter_turn "Some (1 / 10 ^ 7)" 2]
  from th2 [THEN conjunct2, THEN mp, OF n]
  have "\<forall>e. frequency env_fail grid4 quarter_turn = Inl e \<longrightarrow>
          frecoder env_fail grid4 quarter_turn 2 (Some (1 / 10 ^ 7)) = Inl e"
    by (elim conjE)
  with frequency_env_fail
  have x: "frecoder env_fail grid4 quarter_turn 2 (Some (1 / 10 ^ 7)) =
     Inl (ValueError_minimization 9 ''Iteration limit exceeded'')"
    by blast
  show ?thesis
    by (rule conjI [OF u], rule conjI [OF d], rule conjI [OF le [THEN conjunct1]],
        rule conjI [OF le [THEN conjunct2]], rule conjI [OF frequency_env_fail], rule x)
qed

text \<open>
  C10 fails as stated: with \<open>nintvec = 1\<close> and the minimizer that fails on every call,
  \<open>frecoder\<close> returns no component on the quarter turn; it raises the error of
  \<open>frequency\<close>.
\<close>

theorem frecoder_refinement_failure:
  "frequency env_fail grid4 quarter_turn =
     Inl (ValueError_minimization 9 ''Iteration limit exceeded'') \<and>
   frecoder env_fail grid4 quarter_turn (Suc 0) (Some (1 / 10 ^ 7)) =
     Inl (ValueError_minimization 9 ''Iteration limit exceeded'')"
  by (rule conjI [OF frequency_env_fail frecoder_env_fail])

subsection \<open>What the table holds\<close>

lemma frecoder_recorded:
  assumes "frecoder env naff f nintvec bc = Inr (nu, A, phi)"
  shows "length A = length nu \<and> length phi = length nu \<and> 1 \<le> length nu \<and>
         (\<forall>k<length nu. \<exists>kv st.
            frecoder_loop env naff bc [0..<k] None (frecoder_init naff f nintvec) = Inr (kv, st) \<and>
            length (st_fmax st) = k \<and>
            frequency env naff (st_fk st) = Inr (- (nu ! k)))"
proof -
  from assms obtain k st where run: "frecoder_run env naff f nintvec bc = Inr (Some k, st)"
    and r: "nu = map uminus (take (k + 1) (st_nu st))" "A = take (k + 1) (st_A st)"
    "phi = take (k + 1) (st_phi st)"
    by (auto simp: frecoder_def split: sum.splits option.splits)
  have n: "1 \<le> nintvec"
  proof (rule ccontr)
    assume "\<not> 1 \<le> nintvec"
    then have "nintvec = 0" by simp
    with run show False by (simp add: frecoder_run_def)
  qed
  from frecoder_run_trace [OF run n] have k: "k < nintvec"
    and len: "length (st_nu st) = nintvec" "length (st_A st) = nintvec"
    "length (st_phi st) = nintvec"
    by auto
  let ?st0 = "frecoder_init naff f nintvec"
  have l: "frecoder_loop env naff bc [0..<nintvec] None ?st0 = Inr (Some k, st)"
    using run by (simp add: frecoder_run_def)
  have b: "\<forall>j\<in>set [0..<nintvec]. j < length (st_nu ?st0)"
    by (simp add: frecoder_init_fields)
  have ne: "[0..<nintvec] \<noteq> []" using n by simp
  from frecoder_loop_steps [OF l distinct_upt b ne] obtain m where m: "m < nintvec"
    "Some k = Some ([0..<nintvec] ! m)"
    and fr: "\<forall>i\<le>m. \<exists>kvi sti.
              frecoder_loop env naff bc (take i [0..<nintvec]) None ?st0 = Inr (kvi, sti) \<and>
              length (st_fmax sti) = length (st_fmax ?st0) + i \<and>
              frequency env naff (st_fk sti) = Inr (st_nu st ! ([0..<nintvec] ! i))"
    by auto
  from m have mk: "m = k" by simp
  have "\<exists>kv st'.
            frecoder_loop env naff bc [0..<i] None ?st0 = Inr (kv, st') \<and>
            length (st_fmax st') = i \<and>
            frequency env naff (st_fk st') = Inr (- (nu ! i))" if "i < length nu" for i
  proof -
    from that r(1) k len have i: "i \<le> k" "i < nintvec" by simp_all
    from fr mk i(1) obtain kvi sti where
      s: "frecoder_loop env naff bc (take i [0..<nintvec]) None ?st0 = Inr (kvi, sti)"
      "length (st_fmax sti) = length (st_fmax ?st0) + i"
      "frequency env naff (st_fk sti) = Inr (st_nu st ! ([0..<nintvec] ! i))"
      by blast
    from i(2) have t: "take i [0..<nintvec] = [0..<i]" "[0..<nintvec] ! i = i"
      by (simp_all add: take_upt)
    from i len r(1) have "nu ! i = - (st_nu st ! i)" by simp
    with s show ?thesis
      unfolding t frecoder_init_fields
      by (intro exI [of _ kvi] exI [of _ sti]) simp
  qed
  with r k len show ?thesis by simp
qed

lemma frecoder_first_frequency:
  assumes "frecoder env naff f nintvec bc = Inr (nu, A, phi)"
  shows "frequency env naff f = Inr (- (nu ! 0))"
proof -
  from frecoder_recorded [OF assms] obtain kv st where
    "frecoder_loop env naff bc [0..<0] None (frecoder_init naff f nintvec) = Inr (kv, st)"
    "frequency env naff (st_fk st) = Inr (- (nu ! 0))"
    by force
  then show ?thesis by (auto simp: frecoder_init_def)
qed

lemma table_rows_nth:
  assumes "length A = length nu" "length phi = length nu" "k < length nu"
  shows "length (table_rows (nu, A, phi) i) = length nu"
    "c_freq (table_rows (nu, A, phi) i ! k) = - (nu ! k)"
    "c_absA (table_rows (nu, A, phi) i ! k) = A ! k"
    "c_n (table_rows (nu, A, phi) i ! k) = i"
  using assms by (simp_all add: table_rows_def)

lemma table_rows_mem:
  assumes "length A = length nu" "length phi = length nu" "c \<in> set (table_rows (nu, A, phi) i)"
  shows "\<exists>k<length nu. c = table_rows (nu, A, phi) i ! k"
proof -
  from assms(3) obtain k where "k < length (table_rows (nu, A, phi) i)"
    "c = table_rows (nu, A, phi) i ! k"
    by (auto simp: in_set_conv_nth)
  moreover have "length (table_rows (nu, A, phi) i) = length nu"
    using assms(1,2) by (simp add: table_rows_def)
  ultimately show ?thesis by auto
qed


lemma collect_rows_mem:
  assumes "collect_rows env naff nintvec bc fs j = Inr d" "c \<in> set d"
  shows "\<exists>i<length fs. \<exists>r. frecoder env naff (fs ! i) nintvec bc = Inr r \<and>
           c \<in> set (table_rows r (j + i))"
  using assms
proof (induction fs arbitrary: j d)
  case Nil
  then show ?case by simp
next
  case (Cons f fs)
  from Cons.prems(1) obtain r rows where r: "frecoder env naff f nintvec bc = Inr r"
    and rows: "collect_rows env naff nintvec bc fs (Suc j) = Inr rows"
    and d: "d = table_rows r j @ rows"
    by (auto split: sum.splits)
  from Cons.prems(2) d consider "c \<in> set (table_rows r j)" | "c \<in> set rows" by auto
  then show ?case
  proof cases
    case 1
    with r show ?thesis by (intro exI [of _ 0]) simp
  next
    case 2
    from Cons.IH [OF rows 2] obtain i r' where "i < length fs"
      "frecoder env naff (fs ! i) nintvec bc = Inr r'" "c \<in> set (table_rows r' (Suc j + i))"
      by blast
    then show ?thesis by (intro exI [of _ "Suc i"]) simp
  qed
qed

lemma collect_rows_sub:
  assumes "collect_rows env naff nintvec bc fs j = Inr d" "i < length fs"
    "frecoder env naff (fs ! i) nintvec bc = Inr r"
  shows "set (table_rows r (j + i)) \<subseteq> set d"
  using assms
proof (induction fs arbitrary: j d i)
  case Nil
  then show ?case by simp
next
  case (Cons f fs)
  from Cons.prems(1) obtain r0 rows where r0: "frecoder env naff f nintvec bc = Inr r0"
    and rows: "collect_rows env naff nintvec bc fs (Suc j) = Inr rows"
    and d: "d = table_rows r0 j @ rows"
    by (auto split: sum.splits)
  show ?case
  proof (cases i)
    case 0
    with Cons.prems(3) r0 have "r = r0" by simp
    with 0 d show ?thesis by simp
  next
    case (Suc i')
    with Cons.prems(2,3) have "i' < length fs" "frecoder env naff (fs ! i') nintvec bc = Inr r"
      by simp_all
    from Cons.IH [OF rows this] Suc d show ?thesis by auto
  qed
qed

lemma set_argsort: "set (argsort keys) = {0..<length keys}"
  by (simp add: argsort_def)

lemma set_sort_by_amplitude: "set (sort_by_amplitude d) = set d"
proof -
  have "set (sort_by_amplitude d) = (\<lambda>i. d ! i) ` {0..<length d}"
    by (simp add: sort_by_amplitude_def set_argsort)
  also have "\<dots> = set (map (\<lambda>i. d ! i) [0..<length d])" by simp
  also have "\<dots> = set d" by (simp only: map_nth)
  finally show ?thesis .
qed

lemma sorted_sort_by_amplitude: "sorted (rev (map c_absA (sort_by_amplitude d)))"
proof -
  let ?keys = "map c_absA d"
  let ?p = "argsort ?keys"
  have "\<And>i. i \<in> set ?p \<Longrightarrow> c_absA (d ! i) = ?keys ! i"
    using set_argsort [of ?keys] by simp
  then have "map (\<lambda>i. c_absA (d ! i)) ?p = map (\<lambda>i. ?keys ! i) ?p"
    by (rule map_cong [OF refl])
  moreover have "sorted (map (\<lambda>i. ?keys ! i) ?p)"
    unfolding argsort_def by (rule sorted_sort_key)
  ultimately have "sorted (map (\<lambda>i. c_absA (d ! i)) ?p)" by (simp only:)
  then show ?thesis
    by (simp add: sort_by_amplitude_def rev_map o_def)
qed


lemma collect_rows_returns:
  assumes "collect_rows env naff nintvec bc fs j = Inr d" "i < length fs"
  shows "\<exists>r. frecoder env naff (fs ! i) nintvec bc = Inr r"
  using assms
proof (induction fs arbitrary: j d i)
  case Nil
  then show ?case by simp
next
  case (Cons f fs)
  from Cons.prems(1) obtain r0 rows where r0: "frecoder env naff f nintvec bc = Inr r0"
    and rows: "collect_rows env naff nintvec bc fs (Suc j) = Inr rows"
    by (auto split: sum.splits)
  show ?case
  proof (cases i)
    case 0
    with r0 show ?thesis by (intro exI [of _ r0]) simp
  next
    case (Suc i')
    with Cons.prems(2) have "i' < length fs" by simp
    from Cons.IH [OF rows this] obtain r where "frecoder env naff (fs ! i') nintvec bc = Inr r"
      by (elim exE)
    with Suc show ?thesis by (intro exI [of _ r]) simp
  qed
qed

lemma collect_rows_length:
  assumes "collect_rows env naff nintvec bc fs j = Inr d"
  shows "length d = sum_list (map (\<lambda>f. case frecoder env naff f nintvec bc of
                                           Inl e \<Rightarrow> 0 | Inr r \<Rightarrow> length (fst r)) fs)"
  using assms
proof (induction fs arbitrary: j d)
  case Nil
  then show ?case by simp
next
  case (Cons f fs)
  from Cons.prems(1) obtain r0 rows where r0: "frecoder env naff f nintvec bc = Inr r0"
    and rows: "collect_rows env naff nintvec bc fs (Suc j) = Inr rows"
    and d: "d = table_rows r0 j @ rows"
    by (auto split: sum.splits)
  obtain nu A phi where r: "r0 = (nu, A, phi)" by (cases r0) auto
  from frecoder_recorded [OF r0 [unfolded r]] have l: "length A = length nu" "length phi = length nu"
    by simp_all
  have "length (table_rows r0 j) = length nu"
    unfolding r table_rows_def using l by simp
  then show ?case using Cons.IH [OF rows] d by (simp add: r0 r)
qed

lemma length_sort_by_amplitude: "length (sort_by_amplitude d) = length d"
  by (simp add: sort_by_amplitude_def argsort_def)

text \<open>
  C1. The \<open>k\<close>-th frequency that \<open>frecoder\<close> returns is \<open>-\<nu>\<^sub>k\<close>, the negative of the value
  \<open>\<nu>\<^sub>k\<close> that \<open>frequency\<close> returned at step \<open>k\<close>, on the residual series \<open>fk\<close> that the loop
  holds after its first \<open>k\<close> iterations (the input series itself at step 0).
  \<open>find_fundamental_frequencies\<close> negates the returned array once more
  (\<^verbatim>\<open>freqs.append(-nu)\<close>), so the \<^verbatim>\<open>freq\<close> field of a table row is the negative of the
  frequency that \<open>frecoder\<close> returned, that is \<open>\<nu>\<^sub>k\<close> itself, the value returned by
  \<open>frequency\<close> at the extraction step of the row. Whenever the table is built, it is
  ordered by descending magnitude, it has as many rows as the extractions returned
  components, every row comes from a component \<open>k\<close> of the extraction of its dimension
  \<open>c_n\<close>, with that component's magnitude, and every returned component of every dimension
  has its row.
\<close>

theorem component_table_frequencies:
  assumes "component_table env naff fs nintvec bc = Inr d"
  shows "sorted (rev (map c_absA d)) \<and>
         length d = sum_list (map (\<lambda>f. case frecoder env naff f nintvec bc of
                                          Inl e \<Rightarrow> 0 | Inr r \<Rightarrow> length (fst r)) fs) \<and>
         (\<forall>c\<in>set d. \<exists>nu A phi k kv st.
             c_n c < length fs \<and>
             frecoder env naff (fs ! c_n c) nintvec bc = Inr (nu, A, phi) \<and> k < length nu \<and>
             c_freq c = - (nu ! k) \<and> c_absA c = A ! k \<and>
             frecoder_loop env naff bc [0..<k] None (frecoder_init naff (fs ! c_n c) nintvec) =
               Inr (kv, st) \<and>
             length (st_fmax st) = k \<and>
             frequency env naff (st_fk st) = Inr (c_freq c)) \<and>
         (\<forall>i<length fs. \<exists>nu A phi.
             frecoder env naff (fs ! i) nintvec bc = Inr (nu, A, phi) \<and>
             frequency env naff (fs ! i) = Inr (- (nu ! 0)) \<and>
             (\<forall>k<length nu.
                (\<exists>kv st.
                   frecoder_loop env naff bc [0..<k] None (frecoder_init naff (fs ! i) nintvec) =
                     Inr (kv, st) \<and>
                   length (st_fmax st) = k \<and>
                   frequency env naff (st_fk st) = Inr (- (nu ! k))) \<and>
                (\<exists>c\<in>set d. c_n c = i \<and> c_freq c = - (nu ! k) \<and> c_absA c = A ! k)))"
proof -
  from assms obtain d0 where c: "collect_rows env naff nintvec bc fs 0 = Inr d0"
    and d: "d = sort_by_amplitude d0"
    by (auto simp: component_table_def split: sum.splits if_splits)
  have s: "set d = set d0" by (simp add: d set_sort_by_amplitude)
  have 1: "sorted (rev (map c_absA d))" unfolding d by (rule sorted_sort_by_amplitude)
  have 2: "length d = sum_list (map (\<lambda>f. case frecoder env naff f nintvec bc of
                                             Inl e \<Rightarrow> 0 | Inr r \<Rightarrow> length (fst r)) fs)"
    using collect_rows_length [OF c] by (simp add: d length_sort_by_amplitude)
  have 3: "\<forall>c\<in>set d. \<exists>nu A phi k kv st.
             c_n c < length fs \<and>
             frecoder env naff (fs ! c_n c) nintvec bc = Inr (nu, A, phi) \<and> k < length nu \<and>
             c_freq c = - (nu ! k) \<and> c_absA c = A ! k \<and>
             frecoder_loop env naff bc [0..<k] None (frecoder_init naff (fs ! c_n c) nintvec) =
               Inr (kv, st) \<and>
             length (st_fmax st) = k \<and>
             frequency env naff (st_fk st) = Inr (c_freq c)"
  proof
    fix c assume "c \<in> set d"
    with s have "c \<in> set d0" by simp
    from collect_rows_mem [OF c this] obtain i r where i: "i < length fs"
      and r: "frecoder env naff (fs ! i) nintvec bc = Inr r"
      and m: "c \<in> set (table_rows r i)" by auto
    obtain nu A phi where e: "r = (nu, A, phi)" by (cases r) auto
    note rec = frecoder_recorded [OF r [unfolded e]]
    from rec have l: "length A = length nu" "length phi = length nu" by simp_all
    from table_rows_mem [OF l m [unfolded e]] obtain k where k: "k < length nu"
      and ck: "c = table_rows (nu, A, phi) i ! k" by auto
    note n = table_rows_nth [OF l k, of i]
    from n ck have f: "c_freq c = - (nu ! k)" "c_absA c = A ! k" "c_n c = i" by simp_all
    from rec k obtain kv st where
      t: "frecoder_loop env naff bc [0..<k] None (frecoder_init naff (fs ! i) nintvec) =
            Inr (kv, st)"
      "length (st_fmax st) = k" "frequency env naff (st_fk st) = Inr (- (nu ! k))"
      by blast
    from f i k r e t show "\<exists>nu A phi k kv st.
             c_n c < length fs \<and>
             frecoder env naff (fs ! c_n c) nintvec bc = Inr (nu, A, phi) \<and> k < length nu \<and>
             c_freq c = - (nu ! k) \<and> c_absA c = A ! k \<and>
             frecoder_loop env naff bc [0..<k] None (frecoder_init naff (fs ! c_n c) nintvec) =
               Inr (kv, st) \<and>
             length (st_fmax st) = k \<and>
             frequency env naff (st_fk st) = Inr (c_freq c)"
      by (intro exI [of _ nu] exI [of _ A] exI [of _ phi] exI [of _ k] exI [of _ kv]
          exI [of _ st]) simp
  qed
  have 4: "\<forall>i<length fs. \<exists>nu A phi.
             frecoder env naff (fs ! i) nintvec bc = Inr (nu, A, phi) \<and>
             frequency env naff (fs ! i) = Inr (- (nu ! 0)) \<and>
             (\<forall>k<length nu.
                (\<exists>kv st.
                   frecoder_loop env naff bc [0..<k] None (frecoder_init naff (fs ! i) nintvec) =
                     Inr (kv, st) \<and>
                   length (st_fmax st) = k \<and>
                   frequency env naff (st_fk st) = Inr (- (nu ! k))) \<and>
                (\<exists>c\<in>set d. c_n c = i \<and> c_freq c = - (nu ! k) \<and> c_absA c = A ! k))"
  proof (intro allI impI)
    fix i assume i: "i < length fs"
    from collect_rows_returns [OF c i] obtain r where
      r: "frecoder env naff (fs ! i) nintvec bc = Inr r" by blast
    obtain nu A phi where e: "r = (nu, A, phi)" by (cases r) auto
    note rec = frecoder_recorded [OF r [unfolded e]]
    note fst = frecoder_first_frequency [OF r [unfolded e]]
    from rec have l: "length A = length nu" "length phi = length nu" by simp_all
    from collect_rows_sub [OF c i r] have sub: "set (table_rows (nu, A, phi) i) \<subseteq> set d"
      by (simp add: e s)
    have "\<forall>k<length nu.
                (\<exists>kv st.
                   frecoder_loop env naff bc [0..<k] None (frecoder_init naff (fs ! i) nintvec) =
                     Inr (kv, st) \<and>
                   length (st_fmax st) = k \<and>
                   frequency env naff (st_fk st) = Inr (- (nu ! k))) \<and>
                (\<exists>c\<in>set d. c_n c = i \<and> c_freq c = - (nu ! k) \<and> c_absA c = A ! k)"
    proof (intro allI impI conjI)
      fix k assume k: "k < length nu"
      from rec k show "\<exists>kv st.
                   frecoder_loop env naff bc [0..<k] None (frecoder_init naff (fs ! i) nintvec) =
                     Inr (kv, st) \<and>
                   length (st_fmax st) = k \<and>
                   frequency env naff (st_fk st) = Inr (- (nu ! k))"
        by blast
      note n = table_rows_nth [OF l k, of i]
      from n k have "table_rows (nu, A, phi) i ! k \<in> set (table_rows (nu, A, phi) i)"
        by simp
      with sub have "table_rows (nu, A, phi) i ! k \<in> set d" by blast
      with n show "\<exists>c\<in>set d. c_n c = i \<and> c_freq c = - (nu ! k) \<and> c_absA c = A ! k"
        by (intro bexI [of _ "table_rows (nu, A, phi) i ! k"]) simp_all
    qed
    with r e fst show "\<exists>nu A phi.
             frecoder env naff (fs ! i) nintvec bc = Inr (nu, A, phi) \<and>
             frequency env naff (fs ! i) = Inr (- (nu ! 0)) \<and>
             (\<forall>k<length nu.
                (\<exists>kv st.
                   frecoder_loop env naff bc [0..<k] None (frecoder_init naff (fs ! i) nintvec) =
                     Inr (kv, st) \<and>
                   length (st_fmax st) = k \<and>
                   frequency env naff (st_fk st) = Inr (- (nu ! k))) \<and>
                (\<exists>c\<in>set d. c_n c = i \<and> c_freq c = - (nu ! k) \<and> c_absA c = A ! k))"
      by (intro exI [of _ nu] exI [of _ A] exI [of _ phi]) simp
  qed
  from 1 2 3 4 show ?thesis by (intro conjI)
qed

text \<open>
  On the three tones the table is built, its frequencies are \<open>-\<pi>\<close>, \<open>-\<pi>/3\<close>, \<open>-5\<pi>/3\<close>, the
  values that \<open>frequency\<close> returns on the tones of the dimensions 1, 2 and 0, and the
  statement holds of it.
\<close>

theorem component_table_frequencies_witness:
  "\<exists>d. component_table env_tones grid3 [tone2, tone0, tone1] (Suc 0) (Some (1 / 10 ^ 7)) = Inr d \<and>
        map c_freq d = [- pi, - (pi / 3), - (5 * pi / 3)] \<and>
        map c_n d = [Suc 0, 2, 0] \<and>
        frequency env_tones grid3 tone0 = Inr (- pi) \<and>
        frequency env_tones grid3 tone1 = Inr (- (pi / 3)) \<and>
        frequency env_tones grid3 tone2 = Inr (- (5 * pi / 3)) \<and>
        sorted (rev (map c_absA d)) \<and>
        length d = sum_list (map (\<lambda>f. case frecoder env_tones grid3 f (Suc 0) (Some (1 / 10 ^ 7)) of
                                         Inl e \<Rightarrow> 0 | Inr r \<Rightarrow> length (fst r))
                                 [tone2, tone0, tone1]) \<and>
        (\<forall>c\<in>set d. \<exists>nu A phi k kv st.
             c_n c < length [tone2, tone0, tone1] \<and>
             frecoder env_tones grid3 ([tone2, tone0, tone1] ! c_n c) (Suc 0) (Some (1 / 10 ^ 7)) =
               Inr (nu, A, phi) \<and> k < length nu \<and>
             c_freq c = - (nu ! k) \<and> c_absA c = A ! k \<and>
             frecoder_loop env_tones grid3 (Some (1 / 10 ^ 7)) [0..<k] None
               (frecoder_init grid3 ([tone2, tone0, tone1] ! c_n c) (Suc 0)) = Inr (kv, st) \<and>
             length (st_fmax st) = k \<and>
             frequency env_tones grid3 (st_fk st) = Inr (c_freq c)) \<and>
        (\<forall>i<length [tone2, tone0, tone1]. \<exists>nu A phi.
             frecoder env_tones grid3 ([tone2, tone0, tone1] ! i) (Suc 0) (Some (1 / 10 ^ 7)) =
               Inr (nu, A, phi) \<and>
             frequency env_tones grid3 ([tone2, tone0, tone1] ! i) = Inr (- (nu ! 0)) \<and>
             (\<forall>k<length nu.
                (\<exists>kv st.
                   frecoder_loop env_tones grid3 (Some (1 / 10 ^ 7)) [0..<k] None
                     (frecoder_init grid3 ([tone2, tone0, tone1] ! i) (Suc 0)) = Inr (kv, st) \<and>
                   length (st_fmax st) = k \<and>
                   frequency env_tones grid3 (st_fk st) = Inr (- (nu ! k))) \<and>
                (\<exists>c\<in>set d. c_n c = i \<and> c_freq c = - (nu ! k) \<and> c_absA c = A ! k)))"
proof -
  from tones_table [of "Some (1 / 10 ^ 7)"] obtain r0 r1 r2 where
    t: "component_table env_tones grid3 [tone2, tone0, tone1] (Suc 0) (Some (1 / 10 ^ 7)) =
          Inr [r0, r1, r2]"
    and f: "c_freq r0 = - pi" "c_freq r1 = - (pi / 3)" "c_freq r2 = - (5 * pi / 3)"
    and n: "c_n r0 = Suc 0" "c_n r1 = 2" "c_n r2 = 0"
    by (elim exE conjE)
  from f have m: "map c_freq [r0, r1, r2] = [- pi, - (pi / 3), - (5 * pi / 3)]" by simp
  from n have q: "map c_n [r0, r1, r2] = [Suc 0, 2, 0]" by simp
  note th = component_table_frequencies [OF t]
  show ?thesis
    by (rule exI [of _ "[r0, r1, r2]"], rule conjI [OF t], rule conjI [OF m], rule conjI [OF q],
        rule conjI [OF frequency_tones(1)], rule conjI [OF frequency_tones(2)],
        rule conjI [OF frequency_tones(3)], rule th)
qed

text \<open>
  The table does not hold the frequency as \<open>frecoder\<close> returns it. On the quarter turn
  \<open>frequency\<close> returns \<open>\<pi>/2\<close>, \<open>frecoder\<close> returns the frequency \<open>-\<pi>/2\<close>, and the only row of
  the table has the frequency \<open>\<pi>/2\<close>.
\<close>

theorem table_frequency_is_search_frequency:
  "frequency env_ok grid4 quarter_turn = Inr (pi / 2) \<and>
   map_sum id fst (frecoder env_ok grid4 quarter_turn (Suc 0) None) = Inr [- (pi / 2)] \<and>
   map_sum id (map c_freq) (component_table env_ok grid4 [quarter_turn] (Suc 0) None) = Inr [pi / 2]"
  by (simp add: frequency_env_ok frecoder_one [OF frequency_env_ok] component_table_def
      table_rows_one sort_by_amplitude_def argsort_def)

end
